theory Spec2Isabelle
  imports Main
begin

section \<open>Python values and library functions used by the scheduler commands module\<close>

text \<open>
  Python strings are modelled as \<open>string\<close> (lists of characters); the characters the
  source inspects (comma, brackets, equals sign, line boundaries) are all ASCII.
  Exceptions are values of the type \<open>error\<close>; a function that may raise returns
  \<open>error + 'a\<close> with \<open>Inl\<close> for the exception.
\<close>

datatype error =
    ValueError
  | KeyError
  | CalledProcessError
  | InvalidNodenameError
  | OSError
  | TypeError
  | OverflowError

text \<open>\<open>sep.join(xs)\<close>.\<close>

fun join :: "string \<Rightarrow> string list \<Rightarrow> string" where
  "join sep [] = []"
| "join sep [x] = x"
| "join sep (x # y # ys) = x @ sep @ join sep (y # ys)"

text \<open>Puts a character in front of the first piece of a split in progress.\<close>

fun cons_first :: "char \<Rightarrow> string list \<Rightarrow> string list" where
  "cons_first c [] = [[c]]"
| "cons_first c (t # ts) = (c # t) # ts"

text \<open>
  \<open>re.split("(?<=]),", s)\<close>: the pattern matches a comma whose preceding character is
  a closing bracket (a look-behind, so the bracket stays in the piece before the
  comma). The flag says whether the character just read was \<open>]\<close>. The result always
  has at least one piece.
\<close>

fun re_split_scan :: "bool \<Rightarrow> string \<Rightarrow> string list" where
  "re_split_scan after_bracket [] = [[]]"
| "re_split_scan after_bracket (c # cs) =
     (if c = CHR '','' \<and> after_bracket then [] # re_split_scan False cs
      else cons_first c (re_split_scan (c = CHR '']'') cs))"

definition re_split :: "string \<Rightarrow> string list" where
  "re_split s = re_split_scan False s"

section \<open>The node range batcher\<close>

text \<open>
  Modelled from the spec: \<open>grouper\<close> of \<open>common.utils\<close> is not among the sources.
  The spec has the token list partitioned in order into fixed-size groups, the last
  one holding what is left; no group is empty, and a size of zero gives no group.
\<close>

function grouper :: "'a list \<Rightarrow> nat \<Rightarrow> 'a list list" where
  "grouper xs n = (if n = 0 \<or> xs = [] then [] else take n xs # grouper (drop n xs) n)"
  by pat_completeness auto
termination
  by (relation "measure (\<lambda>(xs, n). length xs)") auto

declare grouper.simps [simp del]

text \<open>
  The inputs of \<open>update_nodes\<close> "can be string or other iterables": a string is
  split by \<open>re_split\<close>, anything else is taken as the sequence of its tokens.
\<close>

datatype arg = StrArg string | ListArg "string list"

fun tokens_of :: "arg \<Rightarrow> string list" where
  "tokens_of (StrArg s) = re_split s"
| "tokens_of (ListArg ts) = ts"

text \<open>Python truthiness of an optional argument: \<open>None\<close>, \<open>""\<close> and \<open>[]\<close> are false.\<close>

fun truthy_arg :: "arg option \<Rightarrow> bool" where
  "truthy_arg None = False"
| "truthy_arg (Some (StrArg s)) = (s \<noteq> [])"
| "truthy_arg (Some (ListArg ts)) = (ts \<noteq> [])"

fun truthy_str :: "string option \<Rightarrow> bool" where
  "truthy_str None = False"
| "truthy_str (Some s) = (s \<noteq> [])"

text \<open>
  \<open>_batch_attribute(attribute, batch_size, expected_length=None)\<close>. The test
  \<open>if expected_length and len(attribute) != expected_length\<close> is skipped when
  \<open>expected_length\<close> is \<open>None\<close> and also when it is \<open>0\<close>.
\<close>

definition batch_attribute :: "arg \<Rightarrow> nat \<Rightarrow> nat option \<Rightarrow> error + string list" where
  "batch_attribute attribute batch_size expected_length =
     (let toks = tokens_of attribute in
      if (case expected_length of None \<Rightarrow> False
          | Some n \<Rightarrow> n \<noteq> 0 \<and> length toks \<noteq> n)
      then Inl ValueError
      else Inr (map (join '','') (grouper toks batch_size)))"

text \<open>\<open>zip\<close> of three lists, as triples; it stops with the shortest.\<close>

definition zip3 :: "'a list \<Rightarrow> 'b list \<Rightarrow> 'c list \<Rightarrow> ('a \<times> 'b \<times> 'c) list" where
  "zip3 xs ys zs = zip xs (zip ys zs)"

text \<open>
  \<open>_batch_node_info(nodenames, nodeaddrs, nodehostnames, batch_size)\<close>. The node
  names are tokenized first; their token count is the expected length of the two
  auxiliary attributes, each checked only when it is truthy. A \<open>ValueError\<close> from
  \<open>_batch_attribute\<close> is logged and raised again.
\<close>

definition batch_node_info ::
  "arg \<Rightarrow> arg option \<Rightarrow> arg option \<Rightarrow> nat
     \<Rightarrow> error + (string \<times> string option \<times> string option) list" where
  "batch_node_info nodenames nodeaddrs nodehostnames batch_size =
     (let names = tokens_of nodenames in
      case batch_attribute (ListArg names) batch_size None of
        Inl e \<Rightarrow> Inl e
      | Inr nodename_batch \<Rightarrow>
          (case (if truthy_arg nodeaddrs
                 then map_sum id (map Some)
                        (batch_attribute (the nodeaddrs) batch_size (Some (length names)))
                 else Inr (replicate (length nodename_batch) None)) of
             Inl e \<Rightarrow> Inl e
           | Inr nodeaddrs_batch \<Rightarrow>
               (case (if truthy_arg nodehostnames
                      then map_sum id (map Some)
                             (batch_attribute (the nodehostnames) batch_size
                                (Some (length names)))
                      else Inr (replicate (length nodename_batch) None)) of
                  Inl e \<Rightarrow> Inl e
                | Inr nodehostnames_batch \<Rightarrow>
                    Inr (zip3 nodename_batch nodeaddrs_batch nodehostnames_batch))))"

text \<open>
  The reading of the spec's words for the tokenizer, to compare with \<open>re_split\<close>:
  split on the commas that are not inside a bracketed range. The number is the
  count of brackets open at this point.
\<close>

fun spec_split_scan :: "nat \<Rightarrow> string \<Rightarrow> string list" where
  "spec_split_scan depth [] = [[]]"
| "spec_split_scan depth (c # cs) =
     (if c = CHR '','' \<and> depth = 0 then [] # spec_split_scan depth cs
      else cons_first c
             (spec_split_scan
                (if c = CHR ''['' then Suc depth
                 else if c = CHR '']'' then depth - 1 else depth) cs))"

definition spec_tokenize :: "string \<Rightarrow> string list" where
  "spec_tokenize s = spec_split_scan 0 s"

text \<open>
  A string holds \<open>],\<close> when a closing bracket is directly followed by a comma.
\<close>

fun has_bracket_comma :: "string \<Rightarrow> bool" where
  "has_bracket_comma (c # d # cs) =
     ((c = CHR '']'' \<and> d = CHR '','') \<or> has_bracket_comma (d # cs))"
| "has_bracket_comma _ = False"

text \<open>
  Range expressions whose brackets are not nested and in which every comma outside
  the brackets directly follows a closing bracket, as in \<open>a-[1,2],b-[3]\<close>. The flags
  say whether a bracket is open and whether the character just read was \<open>]\<close>.
\<close>

fun flat_ranges_scan :: "bool \<Rightarrow> bool \<Rightarrow> string \<Rightarrow> bool" where
  "flat_ranges_scan inside after_bracket [] = True"
| "flat_ranges_scan inside after_bracket (c # cs) =
     (if c = CHR ''['' then \<not> inside \<and> flat_ranges_scan True False cs
      else if c = CHR '']'' then inside \<and> flat_ranges_scan False True cs
      else if c = CHR '','' then (inside \<or> after_bracket) \<and> flat_ranges_scan inside False cs
      else flat_ranges_scan inside False cs)"

definition flat_ranges :: "string \<Rightarrow> bool" where
  "flat_ranges s = flat_ranges_scan False False s"

text \<open>
  A bracketed token such as \<open>node-[1,3,4-5]\<close>: it ends with its closing bracket and
  holds no \<open>],\<close>.
\<close>

definition bracketed_token :: "string \<Rightarrow> bool" where
  "bracketed_token t = (t \<noteq> [] \<and> last t = CHR '']'' \<and> \<not> has_bracket_comma t)"

section \<open>The world outside: executor, validator, ownership file\<close>

text \<open>
  What the program does to the outside is recorded as a trace of events: the shell
  commands handed to the executor and the pauses of the retry policy (in
  milliseconds), in order.
\<close>

datatype event = Cmd string | Sleep nat

text \<open>
  The collaborators the source imports or reads from its surroundings are
  parameters:
  \<^item> \<open>slurm_binaries_dir\<close>: the environment variable \<open>SLURM_BINARIES_DIR\<close>
    (default \<open>/opt/slurm/bin\<close>);
  \<^item> \<open>executor\<close>: the outcome of running a shell command after the events so far,
    \<open>None\<close> for a non-zero exit or a timeout, \<open>Some out\<close> for exit zero with the
    captured standard output;
  \<^item> \<open>valid_argument\<close>: whether \<open>validate_subprocess_argument\<close> accepts a string
    (it raises \<open>ValueError\<close> otherwise);
  \<^item> \<open>partition_status\<close>: the enumeration \<open>PartitionStatus\<close>, \<open>None\<close> for a string
    that is not one of its values (the constructor raises \<open>ValueError\<close>);
  \<^item> \<open>mapping_file\<close>: what opening and decoding the JSON ownership file gives.
\<close>

record env =
  slurm_binaries_dir :: string
  executor :: "event list \<Rightarrow> string \<Rightarrow> string option"
  valid_argument :: "string \<Rightarrow> bool"
  partition_status :: "string \<Rightarrow> nat option"
  mapping_file :: "error + (string \<times> string) list"

text \<open>
  The mutable state: the trace, and the class attribute
  \<open>PartitionNodelistMapping._instance\<close> (\<open>None\<close>, or an instance with its mapping).
\<close>

record world =
  trace :: "event list"
  pnm_instance :: "(string \<times> string) list option"

definition SCONTROL :: "env \<Rightarrow> string" where
  "SCONTROL env = ''sudo '' @ slurm_binaries_dir env @ ''/scontrol''"

definition SINFO :: "env \<Rightarrow> string" where
  "SINFO env = slurm_binaries_dir env @ ''/sinfo''"

text \<open>
  Modelled from the spec: \<open>run_command\<close> and \<open>check_command_output\<close> of
  \<open>common.utils\<close> are not among the sources. The spec's process execution boundary:
  \<open>run\<close> returns nothing and raises on a non-zero exit unless suppressed;
  \<open>runCapture\<close> returns the standard output and raises on a non-zero exit. The
  timeout is part of the executor's outcome.
\<close>

definition run_command :: "env \<Rightarrow> string \<Rightarrow> bool \<Rightarrow> world \<Rightarrow> (error + unit) \<times> world" where
  "run_command env command raise_on_error w =
     (let w' = w\<lparr>trace := trace w @ [Cmd command]\<rparr> in
      case executor env (trace w) command of
        None \<Rightarrow> (if raise_on_error then Inl CalledProcessError else Inr (), w')
      | Some out \<Rightarrow> (Inr (), w'))"

definition check_command_output :: "env \<Rightarrow> string \<Rightarrow> world \<Rightarrow> (error + string) \<times> world" where
  "check_command_output env command w =
     (let w' = w\<lparr>trace := trace w @ [Cmd command]\<rparr> in
      case executor env (trace w) command of
        None \<Rightarrow> (Inl CalledProcessError, w')
      | Some out \<Rightarrow> (Inr out, w'))"

section \<open>Updating nodes\<close>

text \<open>
  The body of the loop of \<open>update_nodes\<close> up to the call of \<open>run_command\<close>: the
  three validations and the text \<open>node_info\<close>.
\<close>

definition node_info :: "env \<Rightarrow> string \<times> string option \<times> string option \<Rightarrow> error + string" where
  "node_info env batch =
     (case batch of (nodenames, addrs, hostnames) \<Rightarrow>
        if \<not> valid_argument env nodenames then Inl ValueError
        else if truthy_str addrs \<and> \<not> valid_argument env (the addrs) then Inl ValueError
        else if truthy_str hostnames \<and> \<not> valid_argument env (the hostnames) then Inl ValueError
        else Inr (''nodename='' @ nodenames
                  @ (if truthy_str addrs then '' nodeaddr='' @ the addrs else [])
                  @ (if truthy_str hostnames then '' nodehostname='' @ the hostnames else [])))"

fun update_nodes_loop ::
  "env \<Rightarrow> string \<Rightarrow> bool \<Rightarrow> (string \<times> string option \<times> string option) list \<Rightarrow> world
     \<Rightarrow> (error + unit) \<times> world" where
  "update_nodes_loop env update_cmd raise_on_error [] w = (Inr (), w)"
| "update_nodes_loop env update_cmd raise_on_error (batch # batches) w =
     (case node_info env batch of
        Inl e \<Rightarrow> (Inl e, w)
      | Inr info \<Rightarrow>
          (case run_command env (update_cmd @ '' '' @ info) raise_on_error w of
             (Inl e, w') \<Rightarrow> (Inl e, w')
           | (Inr u, w') \<Rightarrow> update_nodes_loop env update_cmd raise_on_error batches w'))"

definition update_cmd_of :: "env \<Rightarrow> string option \<Rightarrow> string option \<Rightarrow> string" where
  "update_cmd_of env state reason =
     SCONTROL env @ '' update''
     @ (if truthy_str state then '' state='' @ the state else [])
     @ (if truthy_str reason then '' reason='' @ [CHR 0x22] @ the reason @ [CHR 0x22] else [])"

text \<open>
  \<open>update_nodes(nodes, nodeaddrs, nodehostnames, state, reason, raise_on_error)\<close>,
  with the batch size 100 of the source.
\<close>

definition update_nodes ::
  "env \<Rightarrow> arg \<Rightarrow> arg option \<Rightarrow> arg option \<Rightarrow> string option \<Rightarrow> string option \<Rightarrow> bool
     \<Rightarrow> world \<Rightarrow> (error + unit) \<times> world" where
  "update_nodes env nodes nodeaddrs nodehostnames state reason raise_on_error w =
     (case batch_node_info nodes nodeaddrs nodehostnames 100 of
        Inl e \<Rightarrow> (Inl e, w)
      | Inr batched_node_info \<Rightarrow>
          if truthy_str state \<and> \<not> valid_argument env (the state) then (Inl ValueError, w)
          else if truthy_str reason \<and> \<not> valid_argument env (the reason) then (Inl ValueError, w)
          else update_nodes_loop env (update_cmd_of env state reason) raise_on_error
                 batched_node_info w)"

definition set_nodes_down :: "env \<Rightarrow> arg \<Rightarrow> string option \<Rightarrow> world \<Rightarrow> (error + unit) \<times> world" where
  "set_nodes_down env nodes reason w =
     update_nodes env nodes None None (Some ''down'') reason True w"

definition set_nodes_drain :: "env \<Rightarrow> arg \<Rightarrow> string option \<Rightarrow> world \<Rightarrow> (error + unit) \<times> world" where
  "set_nodes_drain env nodes reason w =
     update_nodes env nodes None None (Some ''drain'') reason True w"

definition reset_nodes ::
  "env \<Rightarrow> arg \<Rightarrow> string option \<Rightarrow> string option \<Rightarrow> bool \<Rightarrow> world \<Rightarrow> (error + unit) \<times> world" where
  "reset_nodes env nodes state reason raise_on_error w =
     update_nodes env nodes (Some nodes) (Some nodes) state reason raise_on_error w"

text \<open>
  The decorator \<open>retry(stop_max_attempt_number, wait_fixed)\<close> of the library
  \<open>retrying\<close>: the function is called; when it raises and fewer than
  \<open>stop_max_attempt_number\<close> attempts were made the program sleeps \<open>wait_fixed\<close>
  milliseconds and calls it again; after the last attempt the exception of that
  attempt is raised. The first argument of \<open>retry_from\<close> counts the attempts that
  may still follow the next one.
\<close>

fun retry_from ::
  "nat \<Rightarrow> nat \<Rightarrow> (world \<Rightarrow> (error + 'a) \<times> world) \<Rightarrow> world \<Rightarrow> (error + 'a) \<times> world" where
  "retry_from 0 wait_fixed f w = f w"
| "retry_from (Suc k) wait_fixed f w =
     (case f w of
        (Inr v, w') \<Rightarrow> (Inr v, w')
      | (Inl e, w') \<Rightarrow> retry_from k wait_fixed f (w'\<lparr>trace := trace w' @ [Sleep wait_fixed]\<rparr>))"

definition retry ::
  "nat \<Rightarrow> nat \<Rightarrow> (world \<Rightarrow> (error + 'a) \<times> world) \<Rightarrow> world \<Rightarrow> (error + 'a) \<times> world" where
  "retry stop_max_attempt_number wait_fixed f w =
     retry_from (stop_max_attempt_number - 1) wait_fixed f w"

definition set_nodes_power_down ::
  "env \<Rightarrow> arg \<Rightarrow> string option \<Rightarrow> world \<Rightarrow> (error + unit) \<times> world" where
  "set_nodes_power_down env nodes reason w =
     retry 3 1500 (reset_nodes env nodes (Some ''power_down_force'') reason True) w"

definition set_nodes_idle ::
  "env \<Rightarrow> arg \<Rightarrow> string option \<Rightarrow> bool \<Rightarrow> world \<Rightarrow> (error + unit) \<times> world" where
  "set_nodes_idle env nodes reason reset_node_addrs_hostname w =
     (if reset_node_addrs_hostname
      then reset_nodes env nodes (Some ''resume'') reason False w
      else update_nodes env nodes None None (Some ''resume'') reason False w)"

section \<open>Updating partitions\<close>

text \<open>
  The body of the \<open>try\<close> in the loop of \<open>update_partitions\<close>: the partition name is
  validated and the command is run with \<open>raise_on_error=True\<close>.
\<close>

definition partition_command :: "env \<Rightarrow> string \<Rightarrow> string \<Rightarrow> string" where
  "partition_command env state pname =
     SCONTROL env @ '' update partitionname='' @ pname @ '' state='' @ state"

definition update_partition :: "env \<Rightarrow> string \<Rightarrow> string \<Rightarrow> world \<Rightarrow> (error + unit) \<times> world" where
  "update_partition env state pname w =
     (if \<not> valid_argument env pname then (Inl ValueError, w)
      else run_command env (partition_command env state pname) True w)"

text \<open>
  The loop: \<open>except Exception\<close> logs the failure and goes on with the next
  partition; a partition is appended to \<open>succeeded_partitions\<close> when the body ends
  without an exception.
\<close>

fun update_partitions_loop ::
  "env \<Rightarrow> string \<Rightarrow> string list \<Rightarrow> string list \<Rightarrow> world \<Rightarrow> string list \<times> world" where
  "update_partitions_loop env state [] succeeded_partitions w = (succeeded_partitions, w)"
| "update_partitions_loop env state (pname # partitions) succeeded_partitions w =
     (case update_partition env state pname w of
        (Inl e, w') \<Rightarrow> update_partitions_loop env state partitions succeeded_partitions w'
      | (Inr u, w') \<Rightarrow>
          update_partitions_loop env state partitions (succeeded_partitions @ [pname]) w')"

text \<open>
  \<open>update_partitions(partitions, state)\<close>: the state is validated before the loop,
  outside every \<open>try\<close>.
\<close>

definition update_partitions ::
  "env \<Rightarrow> string list \<Rightarrow> string \<Rightarrow> world \<Rightarrow> (error + string list) \<times> world" where
  "update_partitions env partitions state w =
     (if \<not> valid_argument env state then (Inl ValueError, w)
      else case update_partitions_loop env state partitions [] w of
             (succeeded_partitions, w') \<Rightarrow> (Inr succeeded_partitions, w'))"

section \<open>The partition ownership cache and the partition query\<close>

text \<open>
  \<open>PartitionNodelistMapping.instance().get_partition_nodelist_mapping()\<close>: the
  instance is created when there is none; the file is read when the cached mapping
  is empty.
\<close>

definition get_partition_nodelist_mapping ::
  "env \<Rightarrow> world \<Rightarrow> (error + (string \<times> string) list) \<times> world" where
  "get_partition_nodelist_mapping env w =
     (let cached = (case pnm_instance w of None \<Rightarrow> [] | Some m \<Rightarrow> m) in
      if cached = []
      then (case mapping_file env of
              Inl e \<Rightarrow> (Inl e, w\<lparr>pnm_instance := Some []\<rparr>)
            | Inr m \<Rightarrow> (Inr m, w\<lparr>pnm_instance := Some m\<rparr>))
      else (Inr cached, w))"

definition get_partitions :: "env \<Rightarrow> world \<Rightarrow> (error + string list) \<times> world" where
  "get_partitions env w =
     (case get_partition_nodelist_mapping env w of
        (Inl e, w') \<Rightarrow> (Inl e, w')
      | (Inr m, w') \<Rightarrow> (Inr (map fst m), w'))"

text \<open>\<open>PartitionNodelistMapping.reset()\<close>.\<close>

definition pnm_reset :: "world \<Rightarrow> world" where
  "pnm_reset w = w\<lparr>pnm_instance := None\<rparr>"

definition get_partition_grep_filter :: "string list \<Rightarrow> string" where
  "get_partition_grep_filter partitions =
     (if partitions = [] then []
      else '' | grep''
           @ concat (map (\<lambda>pname. '' -e '' @ [CHR 0x22] @ ''PartitionName='' @ pname
                                       @ [CHR 0x22]) partitions))"

text \<open>\<open>str.splitlines()\<close> on the ASCII line boundaries; a carriage return followed
  by a line feed is one boundary, and no empty line follows the last boundary.\<close>

definition is_linebreak :: "char \<Rightarrow> bool" where
  "is_linebreak c =
     (c \<in> set [CHR 0x0A, CHR 0x0B, CHR 0x0C, CHR 0x0D, CHR 0x1C, CHR 0x1D, CHR 0x1E])"

fun splitlines_scan :: "string \<Rightarrow> string \<Rightarrow> string list" where
  "splitlines_scan cur [] = (if cur = [] then [] else [cur])"
| "splitlines_scan cur [c] = (if is_linebreak c then [cur] else [cur @ [c]])"
| "splitlines_scan cur (c # d # cs) =
     (if c = CHR 0x0D \<and> d = CHR 0x0A then cur # splitlines_scan [] cs
      else if is_linebreak c then cur # splitlines_scan [] (d # cs)
      else splitlines_scan (cur @ [c]) (d # cs))"

definition splitlines :: "string \<Rightarrow> string list" where
  "splitlines s = splitlines_scan [] s"

text \<open>\<open>str.strip()\<close> on the ASCII white space.\<close>

definition is_space :: "char \<Rightarrow> bool" where
  "is_space c =
     (c \<in> set [CHR 0x20, CHR 0x09, CHR 0x0A, CHR 0x0B, CHR 0x0C, CHR 0x0D,
               CHR 0x1C, CHR 0x1D, CHR 0x1E, CHR 0x1F])"

definition strip :: "string \<Rightarrow> string" where
  "strip s = rev (dropWhile is_space (rev (dropWhile is_space s)))"

text \<open>\<open>_parse_partition_name_and_state\<close>: the lines, two by two.\<close>

definition parse_partition_name_and_state :: "string \<Rightarrow> string list list" where
  "parse_partition_name_and_state partition_info = grouper (splitlines partition_info) 2"

definition get_all_partition_nodes :: "env \<Rightarrow> string \<Rightarrow> world \<Rightarrow> (error + string) \<times> world" where
  "get_all_partition_nodes env partition_name w =
     (if \<not> valid_argument env partition_name then (Inl ValueError, w)
      else case check_command_output env
                  (SINFO env @ '' -h -p '' @ partition_name @ '' -o %N'') w of
             (Inl e, w') \<Rightarrow> (Inl e, w')
           | (Inr out, w') \<Rightarrow> (Inr (strip out), w'))"

text \<open>
  Modelled from the spec: the entity \<open>SlurmPartition\<close> of
  \<open>slurm_plugin.slurm_resources\<close> is not among the sources. The spec gives it a
  name, a member node-range expression and a state, and no logic at construction.
\<close>

datatype slurm_partition =
  SlurmPartition (part_name: string) (part_nodenames: string) (part_state: string)

text \<open>
  The list comprehension of \<open>get_partitions_info\<close>: each chunk is unpacked into a
  name and a state (a chunk that is not a pair raises \<open>ValueError\<close>), and the
  member nodes are asked for.
\<close>

fun build_partitions ::
  "env \<Rightarrow> string list list \<Rightarrow> world \<Rightarrow> (error + slurm_partition list) \<times> world" where
  "build_partitions env [] w = (Inr [], w)"
| "build_partitions env (chunk # chunks) w =
     (case chunk of
        [partition_name, partition_state] \<Rightarrow>
          (case get_all_partition_nodes env partition_name w of
             (Inl e, w') \<Rightarrow> (Inl e, w')
           | (Inr nodes, w') \<Rightarrow>
               (case build_partitions env chunks w' of
                  (Inl e, w'') \<Rightarrow> (Inl e, w'')
                | (Inr parts, w'') \<Rightarrow>
                    (Inr (SlurmPartition partition_name nodes partition_state # parts), w'')))
      | _ \<Rightarrow> (Inl ValueError, w))"

definition show_partition_info_command :: "env \<Rightarrow> string list \<Rightarrow> string" where
  "show_partition_info_command env partitions =
     SCONTROL env @ '' show partitions -o '' @ get_partition_grep_filter partitions @ '' ''
     @ ''| grep -oP '' @ [CHR 0x22] @ ''^PartitionName='' @ [CHR 0x5C] @ ''K(''
     @ [CHR 0x5C] @ ''S+)| State='' @ [CHR 0x5C] @ ''K('' @ [CHR 0x5C] @ ''S+)'' @ [CHR 0x22]"

definition get_partitions_info :: "env \<Rightarrow> world \<Rightarrow> (error + slurm_partition list) \<times> world" where
  "get_partitions_info env w =
     (case get_partitions env w of
        (Inl e, w1) \<Rightarrow> (Inl e, w1)
      | (Inr partitions, w1) \<Rightarrow>
          (case check_command_output env (show_partition_info_command env partitions) w1 of
             (Inl e, w2) \<Rightarrow> (Inl e, w2)
           | (Inr partition_info_str, w2) \<Rightarrow>
               build_partitions env (parse_partition_name_and_state partition_info_str) w2))"

section \<open>Updating all partitions\<close>

text \<open>
  The loop of \<open>update_all_partitions\<close> that collects \<open>partition_to_update\<close>: a
  partition whose status differs from the target is, when asked for, powered down
  first (with the retry policy), then appended.
\<close>

fun select_partitions ::
  "env \<Rightarrow> string \<Rightarrow> bool \<Rightarrow> slurm_partition list \<Rightarrow> string list \<Rightarrow> world
     \<Rightarrow> (error + string list) \<times> world" where
  "select_partitions env state reset_node_addrs_hostname [] partition_to_update w =
     (Inr partition_to_update, w)"
| "select_partitions env state reset_node_addrs_hostname (part # partitions) partition_to_update w =
     (case partition_status env (part_state part) of
        None \<Rightarrow> (Inl ValueError, w)
      | Some current \<Rightarrow>
          (case partition_status env state of
             None \<Rightarrow> (Inl ValueError, w)
           | Some target \<Rightarrow>
               if current \<noteq> target
               then (case (if reset_node_addrs_hostname
                           then set_nodes_power_down env (StrArg (part_nodenames part))
                                  (Some ''stopping cluster'') w
                           else (Inr (), w)) of
                       (Inl e, w') \<Rightarrow> (Inl e, w')
                     | (Inr u, w') \<Rightarrow>
                         select_partitions env state reset_node_addrs_hostname partitions
                           (partition_to_update @ [part_name part]) w')
               else select_partitions env state reset_node_addrs_hostname partitions
                      partition_to_update w))"

text \<open>The body of the \<open>try\<close> of \<open>update_all_partitions\<close>.\<close>

definition update_all_partitions_body ::
  "env \<Rightarrow> string \<Rightarrow> bool \<Rightarrow> world \<Rightarrow> (error + bool) \<times> world" where
  "update_all_partitions_body env state reset_node_addrs_hostname w =
     (case get_partitions_info env w of
        (Inl e, w1) \<Rightarrow> (Inl e, w1)
      | (Inr partitions, w1) \<Rightarrow>
          (case select_partitions env state reset_node_addrs_hostname partitions [] w1 of
             (Inl e, w2) \<Rightarrow> (Inl e, w2)
           | (Inr partition_to_update, w2) \<Rightarrow>
               (case update_partitions env partition_to_update state w2 of
                  (Inl e, w3) \<Rightarrow> (Inl e, w3)
                | (Inr succeeded_partitions, w3) \<Rightarrow>
                    (Inr (succeeded_partitions = partition_to_update), w3))))"

text \<open>
  \<open>update_all_partitions(state, reset_node_addrs_hostname)\<close>: \<open>except Exception\<close>
  logs the error and returns \<open>False\<close>. Every value of \<open>error\<close> stands for a subclass
  of \<open>Exception\<close>.
\<close>

definition update_all_partitions ::
  "env \<Rightarrow> string \<Rightarrow> bool \<Rightarrow> world \<Rightarrow> (error + bool) \<times> world" where
  "update_all_partitions env state reset_node_addrs_hostname w =
     (case update_all_partitions_body env state reset_node_addrs_hostname w of
        (Inl e, w') \<Rightarrow> (Inr False, w')
      | (Inr b, w') \<Rightarrow> (Inr b, w'))"

text \<open>
  A list of commands run one after the other from a given trace, each with exit
  zero.
\<close>

fun runs_ok :: "env \<Rightarrow> event list \<Rightarrow> string list \<Rightarrow> bool" where
  "runs_ok env tr [] = True"
| "runs_ok env tr (c # cs) = (executor env tr c \<noteq> None \<and> runs_ok env (tr @ [Cmd c]) cs)"

text \<open>
  Whether the \<open>i\<close>-th of a list of commands, run after the given trace and the
  commands before it, exits with zero.
\<close>

definition exits_zero :: "env \<Rightarrow> event list \<Rightarrow> string list \<Rightarrow> nat \<Rightarrow> bool" where
  "exits_zero env tr cmds i = (executor env (tr @ map Cmd (take i cmds)) (cmds ! i) \<noteq> None)"

text \<open>
  The names of the partitions whose status differs from the target, in order: what
  \<open>update_all_partitions\<close> means to update.
\<close>

definition partitions_to_update :: "env \<Rightarrow> string \<Rightarrow> slurm_partition list \<Rightarrow> string list" where
  "partitions_to_update env state parts =
     map part_name
       (filter (\<lambda>part. partition_status env (part_state part) \<noteq> partition_status env state) parts)"

section \<open>Parsing the node dump\<close>

text \<open>
  \<open>s.split(sep)\<close> for a separator that is not empty: the pieces between the
  occurrences of the separator, found from the left.
\<close>

fun split_scan :: "string \<Rightarrow> string \<Rightarrow> string \<Rightarrow> string list" where
  "split_scan sep cur [] = [cur]"
| "split_scan sep cur (c # cs) =
     (if sep \<noteq> [] \<and> take (length sep) (c # cs) = sep
      then cur # split_scan sep [] (drop (length sep) (c # cs))
      else split_scan sep (cur @ [c]) cs)"

definition str_split :: "string \<Rightarrow> string \<Rightarrow> string list" where
  "str_split s sep = split_scan sep [] s"

subsection \<open>Time stamps\<close>

text \<open>
  A naive \<open>datetime\<close>: year, month, day, hour, minute, second. An aware
  \<open>datetime\<close> in UTC is the number of seconds since 1970-01-01T00:00:00+00:00.
\<close>

datatype naive_datetime = NaiveDatetime nat nat nat nat nat nat

definition is_digit :: "char \<Rightarrow> bool" where
  "is_digit c = (48 \<le> (of_char c :: nat) \<and> (of_char c :: nat) \<le> 57)"

definition digit_val :: "char \<Rightarrow> nat" where
  "digit_val c = of_char c - 48"

text \<open>
  A field of one or two digits, as the regular expressions of \<open>strptime\<close> read it:
  two digits when they fit the directive, else one digit when it fits.
\<close>

definition read_field ::
  "(nat \<Rightarrow> nat \<Rightarrow> bool) \<Rightarrow> (nat \<Rightarrow> bool) \<Rightarrow> string \<Rightarrow> (nat \<times> string) option" where
  "read_field two one s =
     (case s of
        [] \<Rightarrow> None
      | a # r \<Rightarrow>
          if \<not> is_digit a then None
          else (case r of
                  b # r' \<Rightarrow>
                    if is_digit b \<and> two (digit_val a) (digit_val b)
                    then Some (10 * digit_val a + digit_val b, r')
                    else if one (digit_val a) then Some (digit_val a, r) else None
                | [] \<Rightarrow> if one (digit_val a) then Some (digit_val a, r) else None))"

text \<open>\<open>%Y\<close>: four digits.\<close>

definition read_year :: "string \<Rightarrow> (nat \<times> string) option" where
  "read_year s =
     (case s of
        a # b # c # d # r \<Rightarrow>
          if is_digit a \<and> is_digit b \<and> is_digit c \<and> is_digit d
          then Some (1000 * digit_val a + 100 * digit_val b + 10 * digit_val c + digit_val d, r)
          else None
      | _ \<Rightarrow> None)"

text \<open>\<open>%m\<close>: \<open>1[0-2]|0[1-9]|[1-9]\<close>.\<close>

definition read_month :: "string \<Rightarrow> (nat \<times> string) option" where
  "read_month = read_field (\<lambda>a b. (a = 1 \<and> b \<le> 2) \<or> (a = 0 \<and> 1 \<le> b)) (\<lambda>a. 1 \<le> a)"

text \<open>\<open>%d\<close>: \<open>3[0-1]|[1-2]\d|0[1-9]|[1-9]| [1-9]\<close>.\<close>

definition read_day :: "string \<Rightarrow> (nat \<times> string) option" where
  "read_day s =
     (case s of
        a # b # r \<Rightarrow>
          if a = CHR '' '' \<and> is_digit b \<and> 1 \<le> digit_val b then Some (digit_val b, r)
          else read_field (\<lambda>a b. (a = 3 \<and> b \<le> 1) \<or> a = 1 \<or> a = 2 \<or> (a = 0 \<and> 1 \<le> b))
                 (\<lambda>a. 1 \<le> a) s
      | _ \<Rightarrow> read_field (\<lambda>a b. (a = 3 \<and> b \<le> 1) \<or> a = 1 \<or> a = 2 \<or> (a = 0 \<and> 1 \<le> b))
               (\<lambda>a. 1 \<le> a) s)"

text \<open>\<open>%H\<close>: \<open>2[0-3]|[0-1]\d|\d\<close>.\<close>

definition read_hour :: "string \<Rightarrow> (nat \<times> string) option" where
  "read_hour = read_field (\<lambda>a b. (a = 2 \<and> b \<le> 3) \<or> a \<le> 1) (\<lambda>a. True)"

text \<open>\<open>%M\<close>: \<open>[0-5]\d|\d\<close>.\<close>

definition read_minute :: "string \<Rightarrow> (nat \<times> string) option" where
  "read_minute = read_field (\<lambda>a b. a \<le> 5) (\<lambda>a. True)"

text \<open>\<open>%S\<close>: \<open>6[0-1]|[0-5]\d|\d\<close>.\<close>

definition read_second :: "string \<Rightarrow> (nat \<times> string) option" where
  "read_second = read_field (\<lambda>a b. (a = 6 \<and> b \<le> 1) \<or> a \<le> 5) (\<lambda>a. True)"

text \<open>A character of the format that stands for itself; letters match in either case.\<close>

definition read_literal :: "char list \<Rightarrow> string \<Rightarrow> string option" where
  "read_literal accepted s =
     (case s of [] \<Rightarrow> None | c # r \<Rightarrow> if c \<in> set accepted then Some r else None)"

definition is_leap :: "nat \<Rightarrow> bool" where
  "is_leap y = (y mod 4 = 0 \<and> (y mod 100 \<noteq> 0 \<or> y mod 400 = 0))"

definition days_in_month :: "nat \<Rightarrow> nat \<Rightarrow> nat" where
  "days_in_month y m =
     (if m = 2 then (if is_leap y then 29 else 28)
      else if m \<in> set [4, 6, 9, 11] then 30 else 31)"

text \<open>
  \<open>datetime.strptime(value, "%Y-%m-%dT%H:%M:%S")\<close> on ASCII text: the whole text
  has to match, and the \<open>datetime\<close> built from the fields has to exist (a year from
  1, a day of the month, a second below 60); otherwise \<open>ValueError\<close>.
\<close>

definition read_date :: "string \<Rightarrow> ((nat \<times> nat \<times> nat) \<times> string) option" where
  "read_date s =
     Option.bind (read_year s) (\<lambda>(y, s1).
     Option.bind (read_literal [CHR ''-''] s1) (\<lambda>s2.
     Option.bind (read_month s2) (\<lambda>(m, s3).
     Option.bind (read_literal [CHR ''-''] s3) (\<lambda>s4.
     Option.bind (read_day s4) (\<lambda>(d, s5). Some ((y, m, d), s5))))))"

definition read_time :: "string \<Rightarrow> ((nat \<times> nat \<times> nat) \<times> string) option" where
  "read_time s =
     Option.bind (read_hour s) (\<lambda>(H, s1).
     Option.bind (read_literal [CHR '':''] s1) (\<lambda>s2.
     Option.bind (read_minute s2) (\<lambda>(M, s3).
     Option.bind (read_literal [CHR '':''] s3) (\<lambda>s4.
     Option.bind (read_second s4) (\<lambda>(S, s5). Some ((H, M, S), s5))))))"

definition strptime :: "string \<Rightarrow> error + naive_datetime" where
  "strptime s =
     (case Option.bind (read_date s) (\<lambda>((y, m, d), s1).
           Option.bind (read_literal [CHR ''T'', CHR ''t''] s1) (\<lambda>s2.
           Option.bind (read_time s2) (\<lambda>((H, M, S), s3).
             if s3 = [] \<and> 1 \<le> y \<and> d \<le> days_in_month y m \<and> S \<le> 59
             then Some (NaiveDatetime y m d H M S) else None))) of
        None \<Rightarrow> Inl ValueError
      | Some n \<Rightarrow> Inr n)"

text \<open>Days from 1970-01-01 to a date of the proleptic Gregorian calendar.\<close>

definition days_from_civil :: "int \<Rightarrow> int \<Rightarrow> int \<Rightarrow> int" where
  "days_from_civil y m d =
     (let y' = (if m \<le> 2 then y - 1 else y);
          era = y' div 400;
          yoe = y' - era * 400;
          doy = (153 * (if m > 2 then m - 3 else m + 9) + 2) div 5 + d - 1;
          doe = yoe * 365 + yoe div 4 - yoe div 100 + doy
      in era * 146097 + doe - 719468)"

text \<open>The UTC instant whose UTC wall clock shows the given fields.\<close>

fun utc_seconds :: "naive_datetime \<Rightarrow> int" where
  "utc_seconds (NaiveDatetime y m d H M S) =
     days_from_civil (int y) (int m) (int d) * 86400 + int H * 3600 + int M * 60 + int S"

text \<open>The first and the last second a \<open>datetime\<close> can hold (years 1 to 9999).\<close>

definition min_utc_seconds :: int where
  "min_utc_seconds = utc_seconds (NaiveDatetime 1 1 1 0 0 0)"

definition max_utc_seconds :: int where
  "max_utc_seconds = utc_seconds (NaiveDatetime 9999 12 31 23 59 59)"

text \<open>
  \<open>naive.astimezone(tz=timezone.utc)\<close>: a naive \<open>datetime\<close> is taken as the local
  time of the system, and the result is the same instant in UTC. The parameter
  gives the offset of local time from UTC, in seconds, at a local wall clock time.
  An instant that no \<open>datetime\<close> can hold raises \<open>OverflowError\<close>.
\<close>

definition astimezone_utc :: "(naive_datetime \<Rightarrow> int) \<Rightarrow> naive_datetime \<Rightarrow> error + int" where
  "astimezone_utc local_utcoffset n =
     (let t = utc_seconds n - local_utcoffset n in
      if min_utc_seconds \<le> t \<and> t \<le> max_utc_seconds then Inr t else Inl OverflowError)"

subsection \<open>Records and nodes\<close>

text \<open>The values a keyword argument of a node takes.\<close>

datatype pyval = PStr string | PNone | PDatetimeUTC int

definition map_slurm_key_to_arg :: "string \<Rightarrow> string option" where
  "map_slurm_key_to_arg =
     map_of [(''NodeName'', ''name''),
             (''NodeAddr'', ''nodeaddr''),
             (''NodeHostName'', ''nodehostname''),
             (''State'', ''state''),
             (''Partitions'', ''partitions''),
             (''Reason'', ''reason''),
             (''SlurmdStartTime'', ''slurmdstarttime''),
             (''LastBusyTime'', ''lastbusytime'')]"

definition date_fields :: "string list" where
  "date_fields = [''SlurmdStartTime'', ''LastBusyTime'']"

text \<open>
  The body of the loop over the lines of a record: \<open>key, value = line.split("=")\<close>
  raises \<open>ValueError\<close> unless there is one equals sign; a date field is parsed
  (with the errors of \<open>strptime\<close> and \<open>astimezone\<close>) or becomes \<open>None\<close>; a key
  outside the table raises \<open>KeyError\<close>.
\<close>

definition parse_line ::
  "(naive_datetime \<Rightarrow> int) \<Rightarrow> (string \<rightharpoonup> pyval) \<Rightarrow> string \<Rightarrow> error + (string \<rightharpoonup> pyval)" where
  "parse_line local_utcoffset kwargs line =
     (case str_split line ''='' of
        [key, v] \<Rightarrow>
          (case (if key \<in> set date_fields
                 then (if v \<notin> set [''None'', ''Unknown'']
                       then (case strptime v of
                               Inl e \<Rightarrow> Inl e
                             | Inr n \<Rightarrow>
                                 map_sum id PDatetimeUTC (astimezone_utc local_utcoffset n))
                       else Inr PNone)
                 else Inr (PStr v)) of
             Inl e \<Rightarrow> Inl e
           | Inr val \<Rightarrow>
               (case map_slurm_key_to_arg key of
                  None \<Rightarrow> Inl KeyError
                | Some a \<Rightarrow> Inr (kwargs(a \<mapsto> val))))
      | _ \<Rightarrow> Inl ValueError)"

fun parse_lines ::
  "(naive_datetime \<Rightarrow> int) \<Rightarrow> (string \<rightharpoonup> pyval) \<Rightarrow> string list \<Rightarrow> error + (string \<rightharpoonup> pyval)" where
  "parse_lines local_utcoffset kwargs [] = Inr kwargs"
| "parse_lines local_utcoffset kwargs (line # lines) =
     (case parse_line local_utcoffset kwargs line of
        Inl e \<Rightarrow> Inl e
      | Inr kwargs' \<Rightarrow> parse_lines local_utcoffset kwargs' lines)"

text \<open>
  Modelled from the spec: the entities \<open>StaticNode\<close> and \<open>DynamicNode\<close> of
  \<open>slurm_plugin.slurm_resources\<close> are not among the sources. The spec has a node
  constructed from the fields of its record, carried as they are. It gives a node a
  name, a network address, a hostname and a scheduler state, and marks the reason
  and the two time stamps as optional; the partitions are missing from the dump of
  a node that is in no partition (comment in \<open>get_nodes_info\<close>, last record of the
  comment in \<open>_parse_nodes_info\<close>). So the calls \<open>StaticNode(**kwargs)\<close> and
  \<open>DynamicNode(**kwargs)\<close> raise \<open>TypeError\<close> when the name, the address, the
  hostname or the state is missing.
\<close>

datatype slurm_node = StaticNode "string \<rightharpoonup> pyval" | DynamicNode "string \<rightharpoonup> pyval"

fun node_kwargs :: "slurm_node \<Rightarrow> (string \<rightharpoonup> pyval)" where
  "node_kwargs (StaticNode kwargs) = kwargs"
| "node_kwargs (DynamicNode kwargs) = kwargs"

definition required_args :: "string list" where
  "required_args = [''name'', ''nodeaddr'', ''nodehostname'', ''state'']"

definition construct_node :: "bool \<Rightarrow> (string \<rightharpoonup> pyval) \<Rightarrow> error + slurm_node" where
  "construct_node static kwargs =
     (if list_all (\<lambda>a. kwargs a \<noteq> None) required_args
      then Inr (if static then StaticNode kwargs else DynamicNode kwargs)
      else Inl TypeError)"

text \<open>
  \<open>is_static_node(nodename)\<close>. The function \<open>parse_nodename\<close> of
  \<open>slurm_plugin.slurm_resources\<close> is not among the sources and is a parameter: it
  returns queue name, node type and compute resource, or raises.
\<close>

definition is_static_node ::
  "(string \<Rightarrow> error + string \<times> string \<times> string) \<Rightarrow> string \<Rightarrow> error + bool" where
  "is_static_node parse_nodename nodename =
     (case parse_nodename nodename of
        Inl e \<Rightarrow> Inl e
      | Inr (queue_name, node_type, compute_resource) \<Rightarrow> Inr (''st'' = node_type))"

text \<open>
  The body of the \<open>try\<close> of \<open>_parse_nodes_info\<close>: the name decides between the two
  constructors, and the node is constructed from the record.
\<close>

definition build_node ::
  "(string \<Rightarrow> error + string \<times> string \<times> string) \<Rightarrow> string \<Rightarrow> (string \<rightharpoonup> pyval)
     \<Rightarrow> error + slurm_node" where
  "build_node parse_nodename nodename kwargs =
     (case is_static_node parse_nodename nodename of
        Inl e \<Rightarrow> Inl e
      | Inr static \<Rightarrow> construct_node static kwargs)"

text \<open>
  What \<open>_parse_nodes_info\<close> does with one record once its lines are read: nothing
  for a record without lines; otherwise the node is built from the record, static
  or dynamic, and appended. Only \<open>InvalidNodenameError\<close> is caught: the name is
  then logged in a warning and the record left out; any other exception, the
  \<open>KeyError\<close> of a record without name and the \<open>TypeError\<close> of the constructors
  among them, propagates. The result is the list of nodes and the names logged so
  far.
\<close>

definition add_node ::
  "(string \<Rightarrow> error + string \<times> string \<times> string) \<Rightarrow> string list \<Rightarrow> (string \<rightharpoonup> pyval)
     \<Rightarrow> slurm_node list \<times> string list \<Rightarrow> error + slurm_node list \<times> string list" where
  "add_node parse_nodename lines kwargs acc =
     (case acc of (slurm_nodes, warnings) \<Rightarrow>
        if lines = [] then Inr (slurm_nodes, warnings)
        else (case kwargs ''name'' of
                None \<Rightarrow> Inl KeyError
              | Some v \<Rightarrow>
                  (case v of
                     PStr nodename \<Rightarrow>
                       (case build_node parse_nodename nodename kwargs of
                          Inl e \<Rightarrow>
                            if e = InvalidNodenameError
                            then Inr (slurm_nodes, warnings @ [nodename])
                            else Inl e
                        | Inr node \<Rightarrow> Inr (slurm_nodes @ [node], warnings))
                   | PNone \<Rightarrow> Inl TypeError
                   | PDatetimeUTC t \<Rightarrow> Inl TypeError)))"

fun parse_records ::
  "(string \<Rightarrow> error + string \<times> string \<times> string) \<Rightarrow> (naive_datetime \<Rightarrow> int) \<Rightarrow> string list
     \<Rightarrow> slurm_node list \<times> string list \<Rightarrow> error + slurm_node list \<times> string list" where
  "parse_records parse_nodename local_utcoffset [] acc = Inr acc"
| "parse_records parse_nodename local_utcoffset (node # nodes) acc =
     (case parse_lines local_utcoffset Map.empty (splitlines node) of
        Inl e \<Rightarrow> Inl e
      | Inr kwargs \<Rightarrow>
          (case add_node parse_nodename (splitlines node) kwargs acc of
             Inl e \<Rightarrow> Inl e
           | Inr acc' \<Rightarrow> parse_records parse_nodename local_utcoffset nodes acc'))"

text \<open>
  \<open>_parse_nodes_info(slurm_node_info)\<close>: the nodes, and the names of the records
  dropped with a warning.
\<close>

definition parse_nodes_info ::
  "(string \<Rightarrow> error + string \<times> string \<times> string) \<Rightarrow> (naive_datetime \<Rightarrow> int) \<Rightarrow> string
     \<Rightarrow> error + slurm_node list \<times> string list" where
  "parse_nodes_info parse_nodename local_utcoffset slurm_node_info =
     parse_records parse_nodename local_utcoffset
       (str_split slurm_node_info (''######'' @ [CHR 0x0A])) ([], [])"

text \<open>
  Modelled from the spec: \<open>parse_nodename\<close> of \<open>slurm_plugin.slurm_resources\<close> is
  not among the sources. The spec's grammar for a node name is
  \<open>{queue}-{st|dy}-{instancetype}-{number}\<close>, with a queue and an instance type that
  are not empty and a number of decimal digits; a name outside the grammar raises
  \<open>InvalidNodenameError\<close>. Where several splits fit, the longest queue is taken.
\<close>

definition nodename_split_fits :: "string list \<Rightarrow> nat \<Rightarrow> bool" where
  "nodename_split_fits parts j =
     ((parts ! j = ''st'' \<or> parts ! j = ''dy'')
      \<and> join ''-'' (take j parts) \<noteq> []
      \<and> join ''-'' (butlast (drop (Suc j) parts)) \<noteq> []
      \<and> last parts \<noteq> [] \<and> list_all is_digit (last parts))"

definition parse_nodename :: "string \<Rightarrow> error + string \<times> string \<times> string" where
  "parse_nodename nodename =
     (let parts = str_split nodename ''-'';
          fits = filter (nodename_split_fits parts) [1 ..< length parts - 2]
      in if fits = [] then Inl InvalidNodenameError
         else Inr (join ''-'' (take (last fits) parts), parts ! last fits,
                   join ''-'' (butlast (drop (Suc (last fits)) parts))))"

section \<open>Environments for the examples\<close>

text \<open>
  The executor fails on every command; the validator accepts every argument.
\<close>

definition failing_env :: env where
  "failing_env =
     \<lparr>slurm_binaries_dir = ''/opt/slurm/bin'', executor = (\<lambda>tr c. None),
      valid_argument = (\<lambda>s. True), partition_status = (\<lambda>s. None),
      mapping_file = Inr []\<rparr>"

text \<open>Nothing has happened yet.\<close>

definition empty_world :: world where
  "empty_world = \<lparr>trace = [], pnm_instance = None\<rparr>"

text \<open>
  An environment with two partitions, both up. The executor answers the partition
  dump with their names and states and the node listing with a node range; every
  update command exits with zero but the one that sets partition \<open>q2\<close> to
  \<open>INACTIVE\<close>. The validator rejects a semicolon.
\<close>

definition demo_env :: env where
  "demo_env =
     \<lparr>slurm_binaries_dir = ''/opt/slurm/bin'',
      executor = (\<lambda>tr c.
        if c = ''sudo /opt/slurm/bin/scontrol update partitionname=q2 state=INACTIVE'' then None
        else if take 5 c = ''sudo '' then Some (''q1'' @ [CHR 0x0A] @ ''UP'' @ [CHR 0x0A]
                                                @ ''q2'' @ [CHR 0x0A] @ ''UP'' @ [CHR 0x0A])
        else Some (''q-st-c5-[1-2]'' @ [CHR 0x0A])),
      valid_argument = (\<lambda>s. CHR '';'' \<notin> set s),
      partition_status = map_of [(''UP'', 0), (''DOWN'', 1), (''INACTIVE'', 2), (''DRAIN'', 3)],
      mapping_file = Inr [(''q1'', ''q-st-c5-[1-2]''), (''q2'', ''q-st-c5-[1-2]'')]\<rparr>"

text \<open>
  A record of the node dump as the first one in the comment of
  \<open>_parse_nodes_info\<close>, for a node name and a start time.
\<close>

definition sample_record :: "string \<Rightarrow> string \<Rightarrow> string" where
  "sample_record nodename start_time =
     ''NodeName='' @ nodename @ [CHR 0x0A]
     @ ''NodeAddr=1.2.3.4'' @ [CHR 0x0A]
     @ ''NodeHostName='' @ nodename @ [CHR 0x0A]
     @ ''State=IDLE+CLOUD+POWER'' @ [CHR 0x0A]
     @ ''Partitions=compute,compute2'' @ [CHR 0x0A]
     @ ''SlurmdStartTime='' @ start_time @ [CHR 0x0A]
     @ ''Reason=some reason'' @ [CHR 0x0A]"

text \<open>
  A dump of one record: the record and the separator that ends it.
\<close>

definition sample_dump :: "string \<Rightarrow> string \<Rightarrow> string" where
  "sample_dump nodename start_time =
     sample_record nodename start_time @ ''######'' @ [CHR 0x0A]"

text \<open>
  The executor lets the first command through and fails on every later one; the
  validator accepts every argument.
\<close>

definition flaky_env :: env where
  "flaky_env =
     \<lparr>slurm_binaries_dir = ''/opt/slurm/bin'',
      executor = (\<lambda>tr c. if tr = [] then Some [] else None),
      valid_argument = (\<lambda>s. True), partition_status = (\<lambda>s. None),
      mapping_file = Inr []\<rparr>"

section \<open>Properties of the tokenizer\<close>

lemma cons_first_not_Nil: "cons_first c ts \<noteq> []"
  by (cases ts) auto

lemma re_split_scan_not_Nil: "re_split_scan b s \<noteq> []"
  by (induction s arbitrary: b) (auto simp: cons_first_not_Nil)

lemma re_split_scan_cases:
  obtains t ts where "re_split_scan b s = t # ts"
  using re_split_scan_not_Nil[of b s] by (cases "re_split_scan b s") auto

lemma join_cons_first: "ts \<noteq> [] \<Longrightarrow> join sep (cons_first c ts) = c # join sep ts"
  by (induction sep ts rule: join.induct) auto

lemma join_Cons: "ts \<noteq> [] \<Longrightarrow> join sep (t # ts) = t @ sep @ join sep ts"
  by (cases ts) auto

lemma join_re_split_scan: "join '','' (re_split_scan b s) = s"
  by (induction s arbitrary: b)
     (auto simp: join_cons_first join_Cons re_split_scan_not_Nil)

lemma has_bracket_comma_Cons:
  "has_bracket_comma (c # t) =
     ((c = CHR '']'' \<and> t \<noteq> [] \<and> hd t = CHR '','') \<or> has_bracket_comma t)"
  by (cases t) auto

text \<open>
  The pieces of a scan: none holds \<open>],\<close>, and every piece but the last ends with a
  closing bracket (the first piece may be empty when the scan starts right after
  one).
\<close>

lemma re_split_scan_pieces:
  "re_split_scan b s = t # ts \<Longrightarrow>
     \<not> has_bracket_comma t \<and> (b \<longrightarrow> t = [] \<or> hd t \<noteq> CHR '','')
     \<and> (\<forall>u \<in> set ts. \<not> has_bracket_comma u)
     \<and> (ts \<noteq> [] \<longrightarrow> (if t = [] then b else last t = CHR '']''))
     \<and> (\<forall>u \<in> set (butlast ts). u \<noteq> [] \<and> last u = CHR '']'')"
proof (induction s arbitrary: b t ts)
  case Nil
  then show ?case by simp
next
  case (Cons c cs)
  show ?case
  proof (cases "c = CHR '','' \<and> b")
    case True
    with Cons.prems have t: "t = []" and ts: "ts = re_split_scan False cs" by auto
    obtain t' ts' where e: "re_split_scan False cs = t' # ts'"
      by (rule re_split_scan_cases)
    from Cons.IH[OF e] show ?thesis using t ts e True by (auto split: if_splits)
  next
    case False
    obtain t' ts' where e: "re_split_scan (c = CHR '']'') cs = t' # ts'"
      by (rule re_split_scan_cases)
    with False Cons.prems have t: "t = c # t'" and ts: "ts = ts'" by auto
    from Cons.IH[OF e] show ?thesis using t ts False
      by (auto simp: has_bracket_comma_Cons split: if_splits)
  qed
qed

lemma re_split_pieces:
  "(\<forall>u \<in> set (re_split s). \<not> has_bracket_comma u) \<and>
   (\<forall>u \<in> set (butlast (re_split s)). u \<noteq> [] \<and> last u = CHR '']'')"
proof -
  obtain t ts where e: "re_split_scan False s = t # ts"
    by (rule re_split_scan_cases)
  from re_split_scan_pieces[OF e] show ?thesis unfolding re_split_def e
    by (auto split: if_splits)
qed

text \<open>
  On flat range expressions the look-behind scan and the scan that counts open
  brackets go in step.
\<close>

lemma flat_ranges_scans_agree:
  "flat_ranges_scan inside b s \<Longrightarrow> (b \<longrightarrow> \<not> inside)
   \<Longrightarrow> re_split_scan b s = spec_split_scan (if inside then 1 else 0) s"
  by (induction s arbitrary: inside b) (auto split: if_splits)

text \<open>Splitting what was joined from bracketed tokens gives the tokens back.\<close>

lemma re_split_scan_token_comma:
  "t \<noteq> [] \<Longrightarrow> last t = CHR '']'' \<Longrightarrow> \<not> has_bracket_comma t
   \<Longrightarrow> \<not> (b \<and> hd t = CHR '','')
   \<Longrightarrow> re_split_scan b (t @ CHR '','' # rest) = t # re_split_scan False rest"
proof (induction t arbitrary: b)
  case Nil
  then show ?case by simp
next
  case (Cons c t)
  show ?case
  proof (cases "t = []")
    case True
    with Cons.prems show ?thesis by auto
  next
    case False
    with Cons.prems
    have "re_split_scan (c = CHR '']'') (t @ CHR '','' # rest) = t # re_split_scan False rest"
      by (intro Cons.IH) (auto simp: has_bracket_comma_Cons)
    with Cons.prems False show ?thesis by auto
  qed
qed

lemma re_split_scan_last_token:
  "\<not> has_bracket_comma t \<Longrightarrow> \<not> (b \<and> t \<noteq> [] \<and> hd t = CHR '','')
   \<Longrightarrow> re_split_scan b t = [t]"
proof (induction t arbitrary: b)
  case Nil
  then show ?case by simp
next
  case (Cons c t)
  have "re_split_scan (c = CHR '']'') t = [t]"
    using Cons.prems by (intro Cons.IH) (auto simp: has_bracket_comma_Cons)
  with Cons.prems show ?case by auto
qed

lemma re_split_join:
  "ts \<noteq> [] \<Longrightarrow> \<forall>t \<in> set ts. bracketed_token t \<Longrightarrow> re_split (join '','' ts) = ts"
  unfolding re_split_def
proof (induction ts)
  case Nil
  then show ?case by simp
next
  case (Cons t ts)
  show ?case
  proof (cases "ts = []")
    case True
    with Cons.prems show ?thesis
      by (simp add: re_split_scan_last_token bracketed_token_def)
  next
    case False
    with Cons have "re_split_scan False (join '','' ts) = ts" by simp
    with Cons.prems False show ?thesis
      by (simp add: join_Cons re_split_scan_token_comma bracketed_token_def)
  qed
qed

text \<open>
  C3, as the spec states it, fails: the tokenizer does not split on every comma
  outside a bracketed range. In \<open>a,b\<close> the comma is outside every bracket, and the
  text stays one token.
\<close>

theorem tokenizer_keeps_plain_comma:
  "re_split ''a,b'' = [''a,b''] \<and> spec_tokenize ''a,b'' = [''a'', ''b'']
   \<and> re_split ''a,b'' \<noteq> spec_tokenize ''a,b''"
  by (simp add: re_split_def spec_tokenize_def)

text \<open>
  C3, amended: the tokenizer splits on exactly the commas that directly follow a
  closing bracket. \<open>a-[1,2],b-[3]\<close> gives \<open>a-[1,2]\<close> and \<open>b-[3]\<close>; joining the tokens
  with commas gives the input back (so only commas are removed); no token holds a
  closing bracket followed by a comma (so every such comma was split on); every
  token but the last ends with a closing bracket (so nothing else was split on). On
  a flat range expression, where brackets are not nested and every comma outside
  them follows a closing bracket, these are the commas outside the brackets, and a
  comma inside them never splits.
\<close>

theorem tokenizer_splits_after_bracket:
  "re_split ''a-[1,2],b-[3]'' = [''a-[1,2]'', ''b-[3]'']
   \<and> join '','' (re_split s) = s
   \<and> (\<forall>t \<in> set (re_split s). \<not> has_bracket_comma t)
   \<and> (\<forall>t \<in> set (butlast (re_split s)). t \<noteq> [] \<and> last t = CHR '']'')
   \<and> (flat_ranges s \<longrightarrow> re_split s = spec_tokenize s)"
proof -
  have ex: "re_split ''a-[1,2],b-[3]'' = [''a-[1,2]'', ''b-[3]'']"
    by (simp add: re_split_def)
  have rt: "join '','' (re_split s) = s"
    by (simp add: re_split_def join_re_split_scan)
  have flat: "flat_ranges s \<longrightarrow> re_split s = spec_tokenize s"
    using flat_ranges_scans_agree[of False False s]
    by (simp add: flat_ranges_def re_split_def spec_tokenize_def)
  from ex rt flat re_split_pieces[of s] show ?thesis by blast
qed

theorem tokenizer_splits_after_bracket_witness:
  "flat_ranges ''n-[1,3,4-5],n-[20,30]''
   \<and> re_split ''n-[1,3,4-5],n-[20,30]'' = spec_tokenize ''n-[1,3,4-5],n-[20,30]''
   \<and> spec_tokenize ''n-[1,3,4-5],n-[20,30]'' = [''n-[1,3,4-5]'', ''n-[20,30]'']
   \<and> \<not> has_bracket_comma ''n-[1,3,4-5]'' \<and> \<not> has_bracket_comma ''n-[20,30]''
   \<and> last ''n-[1,3,4-5]'' = CHR '']''"
  using tokenizer_splits_after_bracket[of "''n-[1,3,4-5],n-[20,30]''"]
  by (simp add: flat_ranges_def spec_tokenize_def)

section \<open>Properties of the batcher\<close>

lemma grouper_Nil: "grouper [] n = []"
  by (simp add: grouper.simps)

lemma grouper_step: "0 < n \<Longrightarrow> xs \<noteq> [] \<Longrightarrow> grouper xs n = take n xs # grouper (drop n xs) n"
  by (subst grouper.simps) simp

lemma concat_grouper: "0 < n \<Longrightarrow> concat (grouper xs n) = xs"
  by (induction xs n rule: grouper.induct) (subst grouper.simps, auto)

lemma grouper_groups:
  "g \<in> set (grouper xs n) \<Longrightarrow> g \<noteq> [] \<and> length g \<le> n \<and> set g \<subseteq> set xs"
proof (induction xs n arbitrary: g rule: grouper.induct)
  case (1 xs n)
  show ?case
  proof (cases "n = 0 \<or> xs = []")
    case True
    with "1.prems" show ?thesis by (auto simp: grouper.simps)
  next
    case False
    with "1.prems" have "g = take n xs \<or> g \<in> set (grouper (drop n xs) n)"
      by (subst (asm) grouper.simps) auto
    then show ?thesis
    proof
      assume "g = take n xs"
      with False show ?thesis by (auto dest: in_set_takeD)
    next
      assume "g \<in> set (grouper (drop n xs) n)"
      from "1.IH"[OF False this] show ?thesis by (auto dest: in_set_dropD)
    qed
  qed
qed

lemma length_grouper: "0 < n \<Longrightarrow> length (grouper xs n) = (length xs + n - 1) div n"
proof (induction xs n rule: grouper.induct)
  case (1 xs n)
  show ?case
  proof (cases "xs = []")
    case True
    with "1.prems" show ?thesis by (simp add: grouper_Nil)
  next
    case False
    with 1 have IH: "length (grouper (drop n xs) n) = (length xs - n + n - 1) div n" by simp
    have g: "grouper xs n = take n xs # grouper (drop n xs) n"
      using False "1.prems" by (rule grouper_step[rotated])
    show ?thesis
    proof (cases "length xs \<le> n")
      case True
      with False "1.prems" have "(length xs + n - 1) div n = 1"
        by (cases xs) (auto simp: div_eq_dividend_iff Suc_le_eq intro!: div_nat_eqI)
      with True g IH "1.prems" show ?thesis by simp
    next
      case False
      then have "length xs + n - 1 = (length xs - n + n - 1) + n" using "1.prems" by simp
      then have "(length xs + n - 1) div n = Suc ((length xs - n + n - 1) div n)"
        using "1.prems" by (metis div_add_self2 less_numeral_extra(3) Suc_eq_plus1)
      with g IH show ?thesis by simp
    qed
  qed
qed

lemma zip3_replicate:
  "zip3 (map f ys) (replicate (length ys) a) (replicate (length ys) b) =
     map (\<lambda>y. (f y, a, b)) ys"
  unfolding zip3_def by (induction ys) auto

lemma batch_node_info_names_only:
  "batch_node_info nodes None None B =
     Inr (map (\<lambda>g. (join '','' g, None, None)) (grouper (tokens_of nodes) B))"
  by (simp add: batch_node_info_def batch_attribute_def zip3_replicate Let_def comp_def)

text \<open>
  C5, as the spec states it, fails for \<open>N = 0\<close>: the expression of no tokens is the
  empty string, which \<open>re.split\<close> turns into one empty token, so
  \<open>_batch_node_info\<close> yields one batch and not \<open>ceil(0/B) = 0\<close> batches.
\<close>

theorem no_tokens_one_batch:
  "join '','' ([] :: string list) = []
   \<and> batch_node_info (StrArg (join '','' [])) None None 100 = Inr [([], None, None)]
   \<and> length [([] :: string, None :: string option, None :: string option)] = 1
   \<and> (length ([] :: string list) + 100 - 1) div 100 = (0 :: nat)"
proof -
  have "grouper [[] :: string] 100 = [[[]]]"
    by (subst grouper.simps) (simp add: grouper_Nil)
  then show ?thesis
    by (simp add: batch_node_info_names_only re_split_def)
qed

text \<open>
  C5, amended: for a node-range expression made of \<open>N\<close> bracketed tokens, \<open>N\<close> at
  least one, joined by commas and a batch size \<open>B > 0\<close>, \<open>_batch_node_info\<close> yields
  \<open>ceil(N/B)\<close> batches, written \<open>(N + B - 1) div B\<close>; the node expression of each
  batch tokenizes into at most \<open>B\<close> tokens; and the token sequences of the batches,
  concatenated in order, are the original token sequence.
\<close>

theorem batches_of_bracketed_tokens:
  assumes "ts \<noteq> []" and "\<forall>t \<in> set ts. bracketed_token t" and "0 < B"
  shows "\<exists>bs. batch_node_info (StrArg (join '','' ts)) None None B = Inr bs
           \<and> length bs = (length ts + B - 1) div B
           \<and> (\<forall>b \<in> set bs. length (re_split (fst b)) \<le> B)
           \<and> concat (map (\<lambda>b. re_split (fst b)) bs) = ts"
proof -
  let ?bs = "map (\<lambda>g. (join '','' g, None :: string option, None :: string option)) (grouper ts B)"
  have toks: "tokens_of (StrArg (join '','' ts)) = ts"
    using assms by (simp add: re_split_join)
  have bs: "batch_node_info (StrArg (join '','' ts)) None None B = Inr ?bs"
    by (simp only: batch_node_info_names_only toks)
  have grp: "re_split (join '','' g) = g" if "g \<in> set (grouper ts B)" for g
  proof -
    from grouper_groups[OF that] have "g \<noteq> []" and "set g \<subseteq> set ts" by auto
    with assms(2) show ?thesis by (intro re_split_join) auto
  qed
  have len: "length ?bs = (length ts + B - 1) div B"
    using assms(3) by (simp add: length_grouper)
  have sz: "\<forall>b \<in> set ?bs. length (re_split (fst b)) \<le> B"
    using grp grouper_groups by fastforce
  have "map (\<lambda>b. re_split (fst b)) ?bs = grouper ts B"
    using grp by (simp add: comp_def map_idI)
  then have cc: "concat (map (\<lambda>b. re_split (fst b)) ?bs) = ts"
    using assms(3) by (simp add: concat_grouper)
  from bs len sz cc show ?thesis by blast
qed

theorem batches_of_bracketed_tokens_witness:
  "[''a-[1,2]'', ''b-[3]'', ''c-[4-7]''] \<noteq> []
   \<and> list_all bracketed_token [''a-[1,2]'', ''b-[3]'', ''c-[4-7]'']
   \<and> (0::nat) < 2
   \<and> (\<exists>bs. batch_node_info (StrArg ''a-[1,2],b-[3],c-[4-7]'') None None 2 = Inr bs
           \<and> length bs = 2
           \<and> list_all (\<lambda>b. length (re_split (fst b)) \<le> 2) bs
           \<and> concat (map (\<lambda>b. re_split (fst b)) bs) = [''a-[1,2]'', ''b-[3]'', ''c-[4-7]''])"
proof -
  let ?ts = "[''a-[1,2]'', ''b-[3]'', ''c-[4-7]'']"
  have a: "?ts \<noteq> []" by simp
  have b: "\<forall>t \<in> set ?ts. bracketed_token t" by (simp add: bracketed_token_def)
  have c: "(0::nat) < 2" by simp
  have d: "(length ?ts + 2 - 1) div 2 = (2::nat)" by simp
  from batches_of_bracketed_tokens[OF a b c] show ?thesis
    unfolding d using b by (simp add: list_all_iff)
qed

section \<open>Properties of \<open>update_nodes\<close>\<close>

text \<open>
  C10: an address or host name argument that is the empty string or the empty list
  is treated as absent, whatever the node list: \<open>update_nodes\<close> does what it does
  without the argument; \<open>_batch_node_info\<close> makes no length check and raises no
  alignment error, and its batches carry no address and no host name; and the
  command text of such a batch has the field \<open>nodename\<close> only.
\<close>

theorem empty_aux_is_absent:
  "update_nodes env nodes (Some (StrArg [])) h st r roe w = update_nodes env nodes None h st r roe w
   \<and> update_nodes env nodes (Some (ListArg [])) h st r roe w = update_nodes env nodes None h st r roe w
   \<and> update_nodes env nodes a (Some (StrArg [])) st r roe w = update_nodes env nodes a None st r roe w
   \<and> update_nodes env nodes a (Some (ListArg [])) st r roe w = update_nodes env nodes a None st r roe w
   \<and> batch_node_info nodes (Some (ListArg [])) (Some (StrArg [])) B =
       Inr (map (\<lambda>g. (join '','' g, None, None)) (grouper (tokens_of nodes) B))
   \<and> node_info env (n, None, None) =
       (if valid_argument env n then Inr (''nodename='' @ n) else Inl ValueError)"
  by (simp add: update_nodes_def batch_node_info_def batch_attribute_def zip3_replicate
      node_info_def Let_def comp_def)

text \<open>
  C6 at the input \<open>nodes=[]\<close>, \<open>nodeaddrs=["10.0.0.1"]\<close>: the token counts differ
  (0 and 1), the expected length 0 counts as no expected length, no alignment error
  is raised and \<open>update_nodes\<close> returns normally, without a command.
\<close>

theorem no_alignment_error_without_nodes:
  "batch_node_info (ListArg []) (Some (ListArg [''10.0.0.1''])) None 100 = Inr []
   \<and> update_nodes env (ListArg []) (Some (ListArg [''10.0.0.1''])) None None None True w
       = (Inr (), w)"
  by (simp add: update_nodes_def batch_node_info_def batch_attribute_def zip3_def
      grouper_Nil Let_def)

text \<open>
  With at least one node token, a truthy address or host name argument of another
  token count makes \<open>update_nodes\<close> raise \<open>ValueError\<close> before any command.
\<close>

lemma alignment_error_before_commands:
  assumes "tokens_of nodes \<noteq> []"
    and "(truthy_arg addrs \<and> length (tokens_of (the addrs)) \<noteq> length (tokens_of nodes))
         \<or> (truthy_arg hosts \<and> length (tokens_of (the hosts)) \<noteq> length (tokens_of nodes))"
  shows "batch_node_info nodes addrs hosts B = Inl ValueError
         \<and> update_nodes env nodes addrs hosts st r roe w = (Inl ValueError, w)"
proof -
  have "batch_node_info nodes addrs hosts B = Inl ValueError" for B
    using assms
    by (auto simp: batch_node_info_def batch_attribute_def Let_def split: sum.splits)
  then show ?thesis by (simp add: update_nodes_def)
qed

lemma loop_stops_at_failure:
  assumes "map (node_info env) pre = map Inr infos"
    and "runs_ok env (trace w) (map (\<lambda>i. cmd @ '' '' @ i) infos)"
    and "node_info env b = Inr info"
    and "executor env (trace w @ map Cmd (map (\<lambda>i. cmd @ '' '' @ i) infos)) (cmd @ '' '' @ info) = None"
  shows "update_nodes_loop env cmd True (pre @ b # post) w =
           (Inl CalledProcessError,
            w\<lparr>trace := trace w @ map Cmd (map (\<lambda>i. cmd @ '' '' @ i) infos) @ [Cmd (cmd @ '' '' @ info)]\<rparr>)"
  using assms
proof (induction pre arbitrary: infos w)
  case Nil
  then show ?case by (simp add: run_command_def)
next
  case (Cons p pre)
  then obtain i js where infos: "infos = i # js" and p: "node_info env p = Inr i"
    and rest: "map (node_info env) pre = map Inr js" by (cases infos) auto
  let ?w = "w\<lparr>trace := trace w @ [Cmd (cmd @ '' '' @ i)]\<rparr>"
  from Cons.prems(2) infos have ok: "executor env (trace w) (cmd @ '' '' @ i) \<noteq> None"
    and ok': "runs_ok env (trace ?w) (map (\<lambda>i. cmd @ '' '' @ i) js)" by auto
  from ok have run: "run_command env (cmd @ '' '' @ i) True w = (Inr (), ?w)"
    by (auto simp: run_command_def)
  have "update_nodes_loop env cmd True (pre @ b # post) ?w =
           (Inl CalledProcessError,
            ?w\<lparr>trace := trace ?w @ map Cmd (map (\<lambda>i. cmd @ '' '' @ i) js) @ [Cmd (cmd @ '' '' @ info)]\<rparr>)"
    using Cons.prems(3,4) infos by (intro Cons.IH[OF rest ok']) auto
  then show ?case using p run infos by simp
qed

lemma loop_attempts_all:
  assumes "map (node_info env) bs = map Inr infos"
  shows "update_nodes_loop env cmd False bs w =
           (Inr (), w\<lparr>trace := trace w @ map Cmd (map (\<lambda>i. cmd @ '' '' @ i) infos)\<rparr>)"
  using assms
proof (induction bs arbitrary: infos w)
  case Nil
  then show ?case by simp
next
  case (Cons p bs)
  then obtain i js where infos: "infos = i # js" and p: "node_info env p = Inr i"
    and rest: "map (node_info env) bs = map Inr js" by (cases infos) auto
  let ?w = "w\<lparr>trace := trace w @ [Cmd (cmd @ '' '' @ i)]\<rparr>"
  have run: "run_command env (cmd @ '' '' @ i) False w = (Inr (), ?w)"
    by (auto simp: run_command_def Let_def split: option.splits)
  from Cons.IH[OF rest, of ?w] show ?case using p run infos by simp
qed

lemma grouper_101: "grouper (replicate 101 x) 100 = [replicate 100 x, [x]]"
proof -
  have "grouper (replicate 101 x) 100 = replicate 100 x # grouper [x] 100"
    by (subst grouper.simps) simp
  also have "grouper [x] 100 = [[x]]"
    by (subst grouper.simps) (simp add: grouper_Nil)
  finally show ?thesis .
qed

text \<open>
  C1, as the spec states it, fails: 101 nodes make two batches; when the executor
  fails on every command and \<open>raise_on_error\<close> is true, the error of the first batch
  propagates and the command of the second batch is never issued.
\<close>

theorem update_nodes_skips_later_batches:
  "batch_node_info (ListArg (replicate 101 ''n'')) None None 100 =
     Inr [(join '','' (replicate 100 ''n''), None, None), (''n'', None, None)]
   \<and> update_nodes failing_env (ListArg (replicate 101 ''n'')) None None None None True empty_world =
       (Inl CalledProcessError,
        empty_world\<lparr>trace := [Cmd (''sudo /opt/slurm/bin/scontrol update nodename=''
                           @ join '','' (replicate 100 ''n''))]\<rparr>)"
  by (simp add: batch_node_info_names_only grouper_101 update_nodes_def update_cmd_of_def
      SCONTROL_def node_info_def run_command_def failing_env_def empty_world_def Let_def)

text \<open>
  C1, amended: in a call of \<open>update_nodes\<close> with \<open>raise_on_error\<close> true, when
  the state, the reason and the batches up to some batch pass validation, the
  commands of the batches before that batch exit with zero and the command of that
  batch fails, the error of that batch propagates to the caller and its command is
  the last one issued: no command of a later batch is attempted. With
  \<open>raise_on_error\<close> false, when the later batches pass validation too, the same
  call issues the commands of all batches and returns normally.
\<close>

theorem update_nodes_stops_at_first_failure:
  assumes "batch_node_info nodes addrs hosts 100 = Inr (pre @ b # post)"
    and "truthy_str state \<longrightarrow> valid_argument env (the state)"
    and "truthy_str reason \<longrightarrow> valid_argument env (the reason)"
    and "map (node_info env) pre = map Inr infos"
    and "node_info env b = Inr info"
    and "runs_ok env (trace w) (map (\<lambda>i. update_cmd_of env state reason @ '' '' @ i) infos)"
    and "executor env
           (trace w @ map Cmd (map (\<lambda>i. update_cmd_of env state reason @ '' '' @ i) infos))
           (update_cmd_of env state reason @ '' '' @ info) = None"
  shows "update_nodes env nodes addrs hosts state reason True w =
           (Inl CalledProcessError,
            w\<lparr>trace := trace w
                 @ map Cmd (map (\<lambda>i. update_cmd_of env state reason @ '' '' @ i) infos)
                 @ [Cmd (update_cmd_of env state reason @ '' '' @ info)]\<rparr>)
         \<and> (\<forall>infos'. map (node_info env) post = map Inr infos' \<longrightarrow>
              update_nodes env nodes addrs hosts state reason False w =
                (Inr (),
                 w\<lparr>trace := trace w
                      @ map Cmd (map (\<lambda>i. update_cmd_of env state reason @ '' '' @ i)
                                   (infos @ info # infos'))\<rparr>))"
proof -
  have stop: "update_nodes env nodes addrs hosts state reason True w =
           (Inl CalledProcessError,
            w\<lparr>trace := trace w
                 @ map Cmd (map (\<lambda>i. update_cmd_of env state reason @ '' '' @ i) infos)
                 @ [Cmd (update_cmd_of env state reason @ '' '' @ info)]\<rparr>)"
    using assms(1,2,3) loop_stops_at_failure[OF assms(4,6,5,7)]
    by (simp add: update_nodes_def)
  have all: "update_nodes env nodes addrs hosts state reason False w =
                (Inr (),
                 w\<lparr>trace := trace w
                      @ map Cmd (map (\<lambda>i. update_cmd_of env state reason @ '' '' @ i)
                                   (infos @ info # infos'))\<rparr>)"
    if "map (node_info env) post = map Inr infos'" for infos'
  proof -
    from assms(4,5) that
    have "map (node_info env) (pre @ b # post) = map Inr (infos @ info # infos')" by simp
    from loop_attempts_all[OF this] show ?thesis
      using assms(1,2,3) by (simp add: update_nodes_def)
  qed
  from stop all show ?thesis by blast
qed

lemma grouper_201:
  "grouper (replicate 201 x) 100 = [replicate 100 x, replicate 100 x, [x]]"
proof -
  have "grouper (replicate 201 x) 100 = replicate 100 x # grouper (replicate 101 x) 100"
    by (subst grouper.simps) simp
  then show ?thesis by (simp add: grouper_101)
qed

theorem update_nodes_stops_at_first_failure_witness:
  "batch_node_info (ListArg (replicate 201 ''n'')) None None 100 =
     Inr ([(join '','' (replicate 100 ''n''), None, None)]
          @ (join '','' (replicate 100 ''n''), None, None) # [(''n'', None, None)])
   \<and> executor flaky_env []
        (''sudo /opt/slurm/bin/scontrol update nodename='' @ join '','' (replicate 100 ''n'')) \<noteq> None
   \<and> update_nodes flaky_env (ListArg (replicate 201 ''n'')) None None None None True empty_world =
       (Inl CalledProcessError,
        empty_world\<lparr>trace :=
          [Cmd (''sudo /opt/slurm/bin/scontrol update nodename=''
                @ join '','' (replicate 100 ''n'')),
           Cmd (''sudo /opt/slurm/bin/scontrol update nodename=''
                @ join '','' (replicate 100 ''n''))]\<rparr>)
   \<and> update_nodes flaky_env (ListArg (replicate 201 ''n'')) None None None None False empty_world =
       (Inr (),
        empty_world\<lparr>trace :=
          [Cmd (''sudo /opt/slurm/bin/scontrol update nodename=''
                @ join '','' (replicate 100 ''n'')),
           Cmd (''sudo /opt/slurm/bin/scontrol update nodename=''
                @ join '','' (replicate 100 ''n'')),
           Cmd ''sudo /opt/slurm/bin/scontrol update nodename=n'']\<rparr>)"
proof -
  let ?b = "(join '','' (replicate 100 ''n''), None :: string option, None :: string option)"
  let ?info = "''nodename='' @ join '','' (replicate 100 ''n'')"
  have 1: "batch_node_info (ListArg (replicate 201 ''n'')) None None 100 =
             Inr ([?b] @ ?b # [(''n'', None, None)])"
    by (simp add: batch_node_info_names_only grouper_201)
  have 2: "truthy_str None \<longrightarrow> valid_argument flaky_env (the None)" by simp
  have 4: "map (node_info flaky_env) [?b] = map Inr [?info]"
    by (simp add: node_info_def flaky_env_def)
  have 5: "node_info flaky_env ?b = Inr ?info" by (simp add: node_info_def flaky_env_def)
  have 6: "runs_ok flaky_env (trace empty_world)
             (map (\<lambda>i. update_cmd_of flaky_env None None @ '' '' @ i) [?info])"
    by (simp add: flaky_env_def empty_world_def)
  have 7: "executor flaky_env
           (trace empty_world
            @ map Cmd (map (\<lambda>i. update_cmd_of flaky_env None None @ '' '' @ i) [?info]))
           (update_cmd_of flaky_env None None @ '' '' @ ?info) = None"
    by (simp add: flaky_env_def)
  have 8: "map (node_info flaky_env) [(''n'', None, None)] = map Inr [''nodename=n'']"
    by (simp add: node_info_def flaky_env_def)
  have 9: "executor flaky_env []
        (''sudo /opt/slurm/bin/scontrol update nodename='' @ join '','' (replicate 100 ''n'')) \<noteq> None"
    by (simp add: flaky_env_def)
  note t = update_nodes_stops_at_first_failure[OF 1 2 2 4 5 6 7]
  from t have s: "update_nodes flaky_env (ListArg (replicate 201 ''n'')) None None None None True
                    empty_world =
           (Inl CalledProcessError,
            empty_world\<lparr>trace := trace empty_world
                 @ map Cmd (map (\<lambda>i. update_cmd_of flaky_env None None @ '' '' @ i) [?info])
                 @ [Cmd (update_cmd_of flaky_env None None @ '' '' @ ?info)]\<rparr>)"
    by blast
  from t 8 have a: "update_nodes flaky_env (ListArg (replicate 201 ''n'')) None None None None False
                      empty_world =
                (Inr (),
                 empty_world\<lparr>trace := trace empty_world
                      @ map Cmd (map (\<lambda>i. update_cmd_of flaky_env None None @ '' '' @ i)
                                   ([?info] @ ?info # [''nodename=n'']))\<rparr>)"
    by blast
  from 1 9 s a show ?thesis
    by (simp add: update_cmd_of_def SCONTROL_def flaky_env_def empty_world_def)
qed

section \<open>Properties of the retry policy\<close>

lemma retry_from_always_failing:
  assumes "\<And>w. f w = (Inl e, w\<lparr>trace := trace w @ evs\<rparr>)"
  shows "retry_from 2 ms f w =
           (Inl e, w\<lparr>trace := trace w @ evs @ [Sleep ms] @ evs @ [Sleep ms] @ evs\<rparr>)"
  by (simp add: numeral_2_eq_2 assms)

text \<open>
  C8: when the executor fails on every command (and the arguments pass validation,
  so that each attempt reaches the command of its first batch),
  \<open>set_nodes_power_down\<close> makes exactly three attempts, sleeps 1500 milliseconds
  between consecutive attempts and not after the last, and then raises the error of
  the command.
\<close>

theorem power_down_three_attempts:
  assumes "\<forall>tr c. executor env tr c = None"
    and "batch_node_info nodes (Some nodes) (Some nodes) 100 = Inr (b # bs)"
    and "valid_argument env ''power_down_force''"
    and "truthy_str reason \<longrightarrow> valid_argument env (the reason)"
    and "node_info env b = Inr info"
    and "c = update_cmd_of env (Some ''power_down_force'') reason @ '' '' @ info"
  shows "set_nodes_power_down env nodes reason w =
           (Inl CalledProcessError,
            w\<lparr>trace := trace w @ [Cmd c, Sleep 1500, Cmd c, Sleep 1500, Cmd c]\<rparr>)"
proof -
  have attempt: "reset_nodes env nodes (Some ''power_down_force'') reason True w' =
                   (Inl CalledProcessError, w'\<lparr>trace := trace w' @ [Cmd c]\<rparr>)" for w'
    using assms by (simp add: reset_nodes_def update_nodes_def run_command_def)
  show ?thesis
    unfolding set_nodes_power_down_def retry_def
    using retry_from_always_failing[of "reset_nodes env nodes (Some ''power_down_force'') reason True", OF attempt]
    by simp
qed

theorem power_down_three_attempts_witness:
  "set_nodes_power_down failing_env (StrArg ''q-st-c5-[1-2]'') (Some ''stopping cluster'') empty_world =
     (Inl CalledProcessError,
      empty_world\<lparr>trace :=
        [Cmd (''sudo /opt/slurm/bin/scontrol update state=power_down_force reason='' @ [CHR 0x22] @ ''stopping cluster'' @ [CHR 0x22] @ '' nodename=q-st-c5-[1-2] nodeaddr=q-st-c5-[1-2] nodehostname=q-st-c5-[1-2]''),
         Sleep 1500,
         Cmd (''sudo /opt/slurm/bin/scontrol update state=power_down_force reason='' @ [CHR 0x22] @ ''stopping cluster'' @ [CHR 0x22] @ '' nodename=q-st-c5-[1-2] nodeaddr=q-st-c5-[1-2] nodehostname=q-st-c5-[1-2]''),
         Sleep 1500,
         Cmd (''sudo /opt/slurm/bin/scontrol update state=power_down_force reason='' @ [CHR 0x22] @ ''stopping cluster'' @ [CHR 0x22] @ '' nodename=q-st-c5-[1-2] nodeaddr=q-st-c5-[1-2] nodehostname=q-st-c5-[1-2]'')]\<rparr>)"
proof -
  let ?n = "StrArg ''q-st-c5-[1-2]''"
  let ?b = "(''q-st-c5-[1-2]'', Some ''q-st-c5-[1-2]'', Some ''q-st-c5-[1-2]'')"
  have g: "grouper [''q-st-c5-[1-2]''] 100 = [[''q-st-c5-[1-2]'']]"
    by (subst grouper.simps) (simp add: grouper_Nil)
  have 1: "\<forall>tr c. executor failing_env tr c = None" by (simp add: failing_env_def)
  have 2: "batch_node_info ?n (Some ?n) (Some ?n) 100 = Inr (?b # [])"
    by (simp add: batch_node_info_def batch_attribute_def re_split_def g zip3_def Let_def)
  have 3: "valid_argument failing_env ''power_down_force''" by (simp add: failing_env_def)
  have 4: "truthy_str (Some ''stopping cluster'') \<longrightarrow> valid_argument failing_env (the (Some ''stopping cluster''))"
    by (simp add: failing_env_def)
  have 5: "node_info failing_env ?b = Inr (''nodename=q-st-c5-[1-2] nodeaddr=q-st-c5-[1-2] nodehostname=q-st-c5-[1-2]'')"
    by (simp add: node_info_def failing_env_def)
  from power_down_three_attempts[OF 1 2 3 4 5 refl, of empty_world] show ?thesis
    by (simp add: update_cmd_of_def SCONTROL_def failing_env_def empty_world_def)
qed

section \<open>Properties of \<open>update_partitions\<close>\<close>

lemma update_partition_valid:
  "valid_argument env p \<Longrightarrow>
   update_partition env state p w =
     (if executor env (trace w) (partition_command env state p) = None
      then Inl CalledProcessError else Inr (),
      w\<lparr>trace := trace w @ [Cmd (partition_command env state p)]\<rparr>)"
  by (auto simp: update_partition_def run_command_def Let_def split: option.splits)

lemma update_partition_invalid:
  "\<not> valid_argument env p \<Longrightarrow> update_partition env state p w = (Inl ValueError, w)"
  by (simp add: update_partition_def)

lemma upt_0_Suc: "[0..<Suc n] = 0 # map Suc [0..<n]"
  by (simp add: upt_conv_Cons map_Suc_upt del: upt_Suc)

lemma update_partitions_loop_result:
  "update_partitions_loop env state ps acc w =
     (acc @ map (\<lambda>i. filter (valid_argument env) ps ! i)
              (filter (exits_zero env (trace w)
                        (map (partition_command env state) (filter (valid_argument env) ps)))
                 [0..<length (filter (valid_argument env) ps)]),
      w\<lparr>trace := trace w
          @ map Cmd (map (partition_command env state) (filter (valid_argument env) ps))\<rparr>)"
proof (induction ps arbitrary: acc w)
  case Nil
  then show ?case by simp
next
  case (Cons p ps)
  show ?case
  proof (cases "valid_argument env p")
    case False
    then show ?thesis by (simp add: update_partition_invalid Cons.IH)
  next
    case True
    let ?c = "partition_command env state p"
    let ?w = "w\<lparr>trace := trace w @ [Cmd ?c]\<rparr>"
    let ?vs = "filter (valid_argument env) ps"
    let ?cs = "map (partition_command env state) ?vs"
    have shift: "exits_zero env (trace w) (?c # ?cs) (Suc x) = exits_zero env (trace ?w) ?cs x"
      for x by (simp add: exits_zero_def)
    have zero: "exits_zero env (trace w) (?c # ?cs) 0 = (executor env (trace w) ?c \<noteq> None)"
      by (simp add: exits_zero_def)
    show ?thesis
      using True
      by (simp add: update_partition_valid Cons.IH upt_0_Suc filter_map shift zero
          comp_def del: upt_Suc)
  qed
qed

lemma update_partitions_loop_shorter:
  "update_partitions_loop env state ps acc w = (r, w') \<Longrightarrow>
     \<exists>s. r = acc @ s \<and> length s \<le> length ps"
proof (induction ps arbitrary: acc w)
  case Nil
  then show ?case by simp
next
  case (Cons p ps)
  obtain e w1 where u: "update_partition env state p w = (e, w1)" by (cases "update_partition env state p w")
  show ?case
  proof (cases e)
    case (Inl a)
    with Cons.prems u have "update_partitions_loop env state ps acc w1 = (r, w')" by simp
    from Cons.IH[OF this] show ?thesis by auto
  next
    case (Inr b)
    with Cons.prems u have "update_partitions_loop env state ps (acc @ [p]) w1 = (r, w')" by simp
    from Cons.IH[OF this] show ?thesis by auto
  qed
qed

lemma update_partitions_loop_all:
  "update_partitions_loop env state ps acc w = (acc @ ps, w') \<longleftrightarrow>
     list_all (valid_argument env) ps
     \<and> runs_ok env (trace w) (map (partition_command env state) ps)
     \<and> w' = w\<lparr>trace := trace w @ map Cmd (map (partition_command env state) ps)\<rparr>"
proof (induction ps arbitrary: acc w)
  case Nil
  then show ?case by auto
next
  case (Cons p ps)
  show ?case
  proof (cases "valid_argument env p \<and> executor env (trace w) (partition_command env state p) \<noteq> None")
    case True
    let ?w = "w\<lparr>trace := trace w @ [Cmd (partition_command env state p)]\<rparr>"
    from True have u: "update_partition env state p w = (Inr (), ?w)"
      by (simp add: update_partition_valid)
    from Cons.IH[of "acc @ [p]" ?w] show ?thesis using True u by simp
  next
    case False
    then obtain e w1 where u: "update_partition env state p w = (Inl e, w1)"
      by (cases "valid_argument env p") (auto simp: update_partition_valid update_partition_invalid)
    have "update_partitions_loop env state ps acc w1 \<noteq> (acc @ p # ps, w')"
    proof
      assume "update_partitions_loop env state ps acc w1 = (acc @ p # ps, w')"
      from update_partitions_loop_shorter[OF this] show False by auto
    qed
    with u False show ?thesis by auto
  qed
qed

text \<open>
  C4, as the spec states it, fails: the state is validated before the loop and
  outside its \<open>try\<close>, so a state that the validator rejects makes
  \<open>update_partitions\<close> raise \<open>ValueError\<close>.
\<close>

theorem update_partitions_raises_on_invalid_state:
  "update_partitions demo_env [''q1''] ''UP; reboot'' empty_world = (Inl ValueError, empty_world)"
  by (simp add: update_partitions_def demo_env_def)

text \<open>
  C4, amended: when the state passes validation, \<open>update_partitions\<close> raises
  nothing; it issues one command for each partition whose name passes validation,
  in order, and returns, in order, those of them whose command exited with zero:
  a partition whose name is rejected or whose command fails is left out. When the
  state is rejected, \<open>ValueError\<close> propagates and no command is issued.
\<close>

theorem update_partitions_succeeded:
  "(valid_argument env state \<longrightarrow>
      update_partitions env ps state w =
        (Inr (map (\<lambda>i. filter (valid_argument env) ps ! i)
               (filter (exits_zero env (trace w)
                          (map (partition_command env state) (filter (valid_argument env) ps)))
                  [0..<length (filter (valid_argument env) ps)])),
         w\<lparr>trace := trace w
              @ map Cmd (map (partition_command env state) (filter (valid_argument env) ps))\<rparr>))
   \<and> (\<not> valid_argument env state \<longrightarrow> update_partitions env ps state w = (Inl ValueError, w))"
  by (simp add: update_partitions_def update_partitions_loop_result)

theorem update_partitions_succeeded_witness:
  "valid_argument demo_env ''INACTIVE''
   \<and> update_partitions demo_env [''q1'', ''q;'', ''q2'', ''q3''] ''INACTIVE'' empty_world =
       (Inr [''q1'', ''q3''],
        empty_world\<lparr>trace :=
          [Cmd ''sudo /opt/slurm/bin/scontrol update partitionname=q1 state=INACTIVE'',
           Cmd ''sudo /opt/slurm/bin/scontrol update partitionname=q2 state=INACTIVE'',
           Cmd ''sudo /opt/slurm/bin/scontrol update partitionname=q3 state=INACTIVE'']\<rparr>)
   \<and> \<not> valid_argument demo_env ''UP; reboot''
   \<and> update_partitions demo_env [''q1''] ''UP; reboot'' empty_world = (Inl ValueError, empty_world)"
  using update_partitions_succeeded[of demo_env "''INACTIVE''" "[''q1'', ''q;'', ''q2'', ''q3'']" empty_world]
    update_partitions_succeeded[of demo_env "''UP; reboot''" "[''q1'']" empty_world]
  by (simp add: demo_env_def empty_world_def exits_zero_def partition_command_def SCONTROL_def
      upt_conv_Cons)

section \<open>Properties of \<open>update_all_partitions\<close>\<close>

lemma select_partitions_result:
  "select_partitions env state reset parts acc w = (Inr r, w') \<Longrightarrow>
     r = acc @ partitions_to_update env state parts"
proof (induction parts arbitrary: acc w)
  case Nil
  then show ?case by (simp add: partitions_to_update_def)
next
  case (Cons p parts)
  from Cons.prems obtain cur tgt where c: "partition_status env (part_state p) = Some cur"
    and t: "partition_status env state = Some tgt"
    by (auto split: option.splits)
  show ?case
  proof (cases "cur = tgt")
    case True
    with Cons.prems c t have "select_partitions env state reset parts acc w = (Inr r, w')"
      by simp
    from Cons.IH[OF this] show ?thesis using c t True
      by (simp add: partitions_to_update_def)
  next
    case False
    with Cons.prems c t obtain w1 where
      "select_partitions env state reset parts (acc @ [part_name p]) w1 = (Inr r, w')"
      by (auto split: prod.splits sum.splits if_splits)
    from Cons.IH[OF this] show ?thesis using c t False
      by (simp add: partitions_to_update_def)
  qed
qed

lemma update_partitions_all:
  "update_partitions env ps state w = (Inr ps, w') \<longleftrightarrow>
     valid_argument env state \<and> list_all (valid_argument env) ps
     \<and> runs_ok env (trace w) (map (partition_command env state) ps)
     \<and> w' = w\<lparr>trace := trace w @ map Cmd (map (partition_command env state) ps)\<rparr>"
  using update_partitions_loop_all[of env state ps "[]" w w']
  by (auto simp: update_partitions_def split: prod.splits)

lemma update_all_partitions_total:
  "\<exists>b w'. update_all_partitions env state reset w = (Inr b, w')"
  by (auto simp: update_all_partitions_def split: prod.splits sum.splits)

lemma update_all_partitions_True:
  "update_all_partitions env state reset w = (Inr True, w') \<longleftrightarrow>
     (\<exists>parts w1 w2.
        get_partitions_info env w = (Inr parts, w1)
        \<and> select_partitions env state reset parts [] w1
            = (Inr (partitions_to_update env state parts), w2)
        \<and> update_partitions env (partitions_to_update env state parts) state w2
            = (Inr (partitions_to_update env state parts), w'))"
  (is "?L \<longleftrightarrow> ?R")
proof
  assume ?L
  then obtain parts w1 tg w2 succ where g: "get_partitions_info env w = (Inr parts, w1)"
    and s: "select_partitions env state reset parts [] w1 = (Inr tg, w2)"
    and u: "update_partitions env tg state w2 = (Inr succ, w')" and e: "succ = tg"
    by (auto simp: update_all_partitions_def update_all_partitions_body_def
        split: prod.splits sum.splits)
  from select_partitions_result[OF s] have "tg = partitions_to_update env state parts" by simp
  with g s u e show ?R by auto
next
  assume ?R
  then show ?L
    by (auto simp: update_all_partitions_def update_all_partitions_body_def)
qed

lemma demo_partitions:
  "fst (get_partitions_info demo_env empty_world) =
     Inr [SlurmPartition ''q1'' ''q-st-c5-[1-2]'' ''UP'',
          SlurmPartition ''q2'' ''q-st-c5-[1-2]'' ''UP'']"
  by code_simp

lemma demo_down: "fst (update_all_partitions demo_env ''DOWN'' False empty_world) = Inr True"
  by code_simp

text \<open>
  C7: \<open>update_all_partitions\<close> never raises: it always returns a truth value. It
  returns true exactly when the partitions were read, the partitions whose status
  differs from the target were collected (and, if asked for, powered down) without
  an exception, and the update of every one of them passed validation and exited
  with zero. So it returns true only if every targeted partition was updated, and
  it returns false as soon as the name of one targeted partition is rejected or the
  update command of one fails.
\<close>

theorem update_all_partitions_never_raises:
  "(\<exists>b w'. update_all_partitions env state reset w = (Inr b, w'))
   \<and> (update_all_partitions env state reset w = (Inr True, w') \<longleftrightarrow>
        (\<exists>parts w1 w2.
           get_partitions_info env w = (Inr parts, w1)
           \<and> select_partitions env state reset parts [] w1
               = (Inr (partitions_to_update env state parts), w2)
           \<and> valid_argument env state
           \<and> list_all (valid_argument env) (partitions_to_update env state parts)
           \<and> runs_ok env (trace w2)
                (map (partition_command env state) (partitions_to_update env state parts))
           \<and> w' = w2\<lparr>trace := trace w2
                        @ map Cmd (map (partition_command env state)
                                     (partitions_to_update env state parts))\<rparr>))
   \<and> (\<forall>parts w1 tg w2.
         get_partitions_info env w = (Inr parts, w1)
         \<and> select_partitions env state reset parts [] w1 = (Inr tg, w2)
         \<and> (\<not> list_all (valid_argument env) tg
              \<or> \<not> runs_ok env (trace w2) (map (partition_command env state) tg))
         \<longrightarrow> fst (update_all_partitions env state reset w) = Inr False)"
proof -
  have a: "\<exists>b w'. update_all_partitions env state reset w = (Inr b, w')"
    by (rule update_all_partitions_total)
  have b: "update_all_partitions env state reset w = (Inr True, w') \<longleftrightarrow>
        (\<exists>parts w1 w2.
           get_partitions_info env w = (Inr parts, w1)
           \<and> select_partitions env state reset parts [] w1
               = (Inr (partitions_to_update env state parts), w2)
           \<and> valid_argument env state
           \<and> list_all (valid_argument env) (partitions_to_update env state parts)
           \<and> runs_ok env (trace w2)
                (map (partition_command env state) (partitions_to_update env state parts))
           \<and> w' = w2\<lparr>trace := trace w2
                        @ map Cmd (map (partition_command env state)
                                     (partitions_to_update env state parts))\<rparr>)"
    unfolding update_all_partitions_True update_partitions_all by blast
  have c: "fst (update_all_partitions env state reset w) = Inr False"
    if g: "get_partitions_info env w = (Inr parts, w1)"
      and s: "select_partitions env state reset parts [] w1 = (Inr tg, w2)"
      and f: "\<not> list_all (valid_argument env) tg
              \<or> \<not> runs_ok env (trace w2) (map (partition_command env state) tg)"
    for parts w1 tg w2
  proof -
    from a obtain r w3 where r: "update_all_partitions env state reset w = (Inr r, w3)" by blast
    have "\<not> r"
    proof
      assume r
      with r have "update_all_partitions env state reset w = (Inr True, w3)" by simp
      then obtain parts' w1' w2' where
        "get_partitions_info env w = (Inr parts', w1')"
        "select_partitions env state reset parts' [] w1'
               = (Inr (partitions_to_update env state parts'), w2')"
        "update_partitions env (partitions_to_update env state parts') state w2'
            = (Inr (partitions_to_update env state parts'), w3)"
        unfolding update_all_partitions_True by blast
      with g s have "update_partitions env tg state w2 = (Inr tg, w3)" by simp
      with f show False unfolding update_partitions_all by blast
    qed
    with r show ?thesis by simp
  qed
  from a b c show ?thesis by blast
qed

theorem update_all_partitions_never_raises_witness:
  "fst (update_all_partitions demo_env ''INACTIVE'' False empty_world) = Inr False
   \<and> fst (update_all_partitions demo_env ''DOWN'' False empty_world) = Inr True
   \<and> (\<exists>parts w1 w2.
         get_partitions_info demo_env empty_world = (Inr parts, w1)
         \<and> select_partitions demo_env ''DOWN'' False parts [] w1
             = (Inr (partitions_to_update demo_env ''DOWN'' parts), w2)
         \<and> partitions_to_update demo_env ''DOWN'' parts = [''q1'', ''q2'']
         \<and> runs_ok demo_env (trace w2)
              (map (partition_command demo_env ''DOWN'') [''q1'', ''q2'']))"
proof -
  let ?parts = "[SlurmPartition ''q1'' ''q-st-c5-[1-2]'' ''UP'',
                 SlurmPartition ''q2'' ''q-st-c5-[1-2]'' ''UP'']"
  let ?w1 = "snd (get_partitions_info demo_env empty_world)"
  have g: "get_partitions_info demo_env empty_world = (Inr ?parts, ?w1)"
    using demo_partitions by (simp add: prod_eq_iff)
  have s: "select_partitions demo_env st False ?parts [] ?w1 = (Inr [''q1'', ''q2''], ?w1)"
    if "st = ''INACTIVE'' \<or> st = ''DOWN''" for st
    using that by (auto simp: demo_env_def)
  have f: "\<not> runs_ok demo_env (trace ?w1)
               (map (partition_command demo_env ''INACTIVE'') [''q1'', ''q2''])"
    by (simp add: demo_env_def partition_command_def SCONTROL_def)
  have p: "partitions_to_update demo_env ''DOWN'' parts = [''q1'', ''q2'']"
    if "parts = ?parts" for parts
    using that by (simp add: partitions_to_update_def demo_env_def)
  let ?w' = "snd (update_all_partitions demo_env ''DOWN'' False empty_world)"
  have d: "update_all_partitions demo_env ''DOWN'' False empty_world = (Inr True, ?w')"
    using demo_down by (simp add: prod_eq_iff)
  have 1: "fst (update_all_partitions demo_env ''INACTIVE'' False empty_world) = Inr False"
    using update_all_partitions_never_raises[of demo_env "''INACTIVE''" False empty_world]
      g s[of "''INACTIVE''"] f by blast
  from update_all_partitions_never_raises[of demo_env "''DOWN''" False empty_world ?w'] d
  obtain parts w1 w2 where
    h: "get_partitions_info demo_env empty_world = (Inr parts, w1)"
       "select_partitions demo_env ''DOWN'' False parts [] w1
             = (Inr (partitions_to_update demo_env ''DOWN'' parts), w2)"
       "runs_ok demo_env (trace w2)
              (map (partition_command demo_env ''DOWN'') (partitions_to_update demo_env ''DOWN'' parts))"
    by blast
  from h(1) g have "parts = ?parts" by simp
  with h p[OF this] have 3: "\<exists>parts w1 w2.
         get_partitions_info demo_env empty_world = (Inr parts, w1)
         \<and> select_partitions demo_env ''DOWN'' False parts [] w1
             = (Inr (partitions_to_update demo_env ''DOWN'' parts), w2)
         \<and> partitions_to_update demo_env ''DOWN'' parts = [''q1'', ''q2'']
         \<and> runs_ok demo_env (trace w2)
              (map (partition_command demo_env ''DOWN'') [''q1'', ''q2''])"
    by metis
  from 1 demo_down 3 show ?thesis by blast
qed

section \<open>Properties of the node dump parser\<close>

lemma strptime_example: "strptime ''2023-01-26T09:57:15'' = Inr (NaiveDatetime 2023 1 26 9 57 15)"
  by code_simp

lemma utc_seconds_example: "utc_seconds (NaiveDatetime 2023 1 26 9 57 15) = 1674727035"
  by code_simp

lemma str_split_examples:
  "str_split ''SlurmdStartTime=2023-01-26T09:57:15'' ''='' = [''SlurmdStartTime'', ''2023-01-26T09:57:15'']"
  "str_split ''SlurmdStartTime=None'' ''='' = [''SlurmdStartTime'', ''None'']"
  "str_split ''SlurmdStartTime=Unknown'' ''='' = [''SlurmdStartTime'', ''Unknown'']"
  by code_simp+

lemma astimezone_utc_result:
  "astimezone_utc tz n = Inr t \<Longrightarrow> t = utc_seconds n - tz n"
  by (auto simp: astimezone_utc_def Let_def split: if_splits)

lemma parse_line_start_time:
  assumes "parse_line tz k ''SlurmdStartTime=2023-01-26T09:57:15'' = Inr k1"
  shows "k1 = k(''slurmdstarttime'' \<mapsto>
            PDatetimeUTC (utc_seconds (NaiveDatetime 2023 1 26 9 57 15)
                          - tz (NaiveDatetime 2023 1 26 9 57 15)))"
proof -
  from assms obtain t where t: "astimezone_utc tz (NaiveDatetime 2023 1 26 9 57 15) = Inr t"
    and k1: "k1 = k(''slurmdstarttime'' \<mapsto> PDatetimeUTC t)"
    by (cases "astimezone_utc tz (NaiveDatetime 2023 1 26 9 57 15)")
       (auto simp: parse_line_def str_split_examples strptime_example date_fields_def
        map_slurm_key_to_arg_def)
  from astimezone_utc_result[OF t] k1 show ?thesis by simp
qed

lemma parse_line_start_time_absent:
  "parse_line tz k ''SlurmdStartTime=None'' = Inr (k(''slurmdstarttime'' \<mapsto> PNone))"
  "parse_line tz k ''SlurmdStartTime=Unknown'' = Inr (k(''slurmdstarttime'' \<mapsto> PNone))"
  by (simp_all add: parse_line_def str_split_examples date_fields_def map_slurm_key_to_arg_def)

lemma map_slurm_key_start_time:
  "map_slurm_key_to_arg key = Some ''slurmdstarttime'' \<Longrightarrow> key = ''SlurmdStartTime''"
  by (auto simp: map_slurm_key_to_arg_def split: if_splits)

lemma parse_line_other_key:
  assumes "parse_line tz k l = Inr k'" and "hd (str_split l ''='') \<noteq> ''SlurmdStartTime''"
  shows "k' ''slurmdstarttime'' = k ''slurmdstarttime''"
proof -
  from assms(1) obtain key v a val where s: "str_split l ''='' = [key, v]"
    and a: "map_slurm_key_to_arg key = Some a" and k': "k' = k(a \<mapsto> val)"
    unfolding parse_line_def
    by (auto split: list.splits sum.splits option.splits)
  from s assms(2) have "key \<noteq> ''SlurmdStartTime''" by simp
  with a map_slurm_key_start_time have "a \<noteq> ''slurmdstarttime''" by blast
  with k' show ?thesis by simp
qed

lemma parse_lines_other_keys:
  "parse_lines tz k ls = Inr k' \<Longrightarrow> \<forall>l \<in> set ls. hd (str_split l ''='') \<noteq> ''SlurmdStartTime''
   \<Longrightarrow> k' ''slurmdstarttime'' = k ''slurmdstarttime''"
proof (induction ls arbitrary: k)
  case Nil
  then show ?case by simp
next
  case (Cons l ls)
  from Cons.prems(1) obtain k1 where 1: "parse_line tz k l = Inr k1"
    and 2: "parse_lines tz k1 ls = Inr k'" by (auto split: sum.splits)
  from Cons.IH[OF 2] Cons.prems(2) parse_line_other_key[OF 1] show ?case by simp
qed

lemma parse_lines_append:
  "parse_lines tz k (xs @ ys) =
     (case parse_lines tz k xs of Inl e \<Rightarrow> Inl e | Inr k1 \<Rightarrow> parse_lines tz k1 ys)"
  by (induction xs arbitrary: k) (auto split: sum.splits)

lemma construct_node_kwargs: "construct_node static k = Inr node \<Longrightarrow> node_kwargs node = k"
  by (auto simp: construct_node_def split: if_splits)

lemma build_node_kwargs: "build_node pn nm k = Inr node \<Longrightarrow> node_kwargs node = k"
  by (auto simp: build_node_def split: sum.splits dest: construct_node_kwargs)

lemma add_node_kwargs:
  "add_node pn ls kwargs ([], []) = Inr ([node], ws) \<Longrightarrow> node_kwargs node = kwargs"
  by (auto simp: add_node_def split: if_splits option.splits pyval.splits sum.splits
      dest: build_node_kwargs)

lemma add_node_acc:
  "add_node pn ls k (ns, ws) =
     (case add_node pn ls k ([], []) of
        Inl e \<Rightarrow> Inl e
      | Inr (n1, w1) \<Rightarrow> Inr (ns @ n1, ws @ w1))"
  by (auto simp: add_node_def split: if_splits option.splits pyval.splits sum.splits)

lemma parse_records_acc:
  "parse_records pn tz rs (ns, ws) =
     (case parse_records pn tz rs ([], []) of
        Inl e \<Rightarrow> Inl e
      | Inr (n2, w2) \<Rightarrow> Inr (ns @ n2, ws @ w2))"
proof (induction rs arbitrary: ns ws)
  case Nil
  then show ?case by simp
next
  case (Cons r rs)
  show ?case
  proof (cases "parse_lines tz Map.empty (splitlines r)")
    case (Inl e)
    then show ?thesis by simp
  next
    case (Inr k)
    show ?thesis
    proof (cases "add_node pn (splitlines r) k ([], [])")
      case (Inl e)
      with Inr add_node_acc[of pn "splitlines r" k ns ws] show ?thesis by simp
    next
      case a: (Inr acc1)
      obtain n1 w1 where acc1: "acc1 = (n1, w1)" by (cases acc1)
      from a acc1 add_node_acc[of pn "splitlines r" k ns ws]
      have b: "add_node pn (splitlines r) k (ns, ws) = Inr (ns @ n1, ws @ w1)" by simp
      show ?thesis
        using Inr a acc1 b Cons.IH[of "ns @ n1" "ws @ w1"] Cons.IH[of n1 w1]
        by (auto split: sum.splits)
    qed
  qed
qed

lemma parse_records_append:
  "parse_records pn tz (xs @ ys) acc =
     (case parse_records pn tz xs acc of
        Inl e \<Rightarrow> Inl e
      | Inr acc' \<Rightarrow> parse_records pn tz ys acc')"
  by (induction xs arbitrary: acc) (auto split: sum.splits)

lemma splitlines_Nil: "splitlines [] = []"
  by (simp add: splitlines_def)

lemma parse_records_empty_record: "parse_records pn tz [[]] acc = Inr acc"
  by (cases acc) (simp add: splitlines_Nil add_node_def)

lemma parse_record_node:
  assumes "parse_records pn tz [r] ([], []) = Inr ([node], ws)"
  shows "parse_lines tz Map.empty (splitlines r) = Inr (node_kwargs node)"
proof -
  from assms obtain kwargs where k: "parse_lines tz Map.empty (splitlines r) = Inr kwargs"
    and a: "add_node pn (splitlines r) kwargs ([], []) = Inr ([node], ws)"
    by (auto split: sum.splits)
  from add_node_kwargs[OF a] k show ?thesis by simp
qed

lemma view_obtain:
  assumes "map_sum id (\<lambda>(nodes, warnings). (map f nodes, warnings)) res = Inr ([v], ws)"
  obtains node where "res = Inr ([node], ws)" and "f node = v"
  using assms by (cases res) (auto split: prod.splits)

text \<open>
  C2, as the spec states it, fails: \<open>astimezone\<close> takes the parsed time as the
  local time of the system. Where local time is one hour ahead of UTC, the dump of
  a record with \<open>SlurmdStartTime=2023-01-26T09:57:15\<close> gives the instant
  2023-01-26T08:57:15+00:00 (1674723435 seconds after the epoch), not
  2023-01-26T09:57:15+00:00 (1674727035 seconds).
\<close>

theorem start_time_shifted_by_local_offset:
  "map_sum id (\<lambda>(nodes, warnings).
       (map (\<lambda>node. node_kwargs node ''slurmdstarttime'') nodes, warnings))
     (parse_nodes_info parse_nodename (\<lambda>n. 3600)
        (sample_dump ''queue1-st-c5xlarge-3'' ''2023-01-26T09:57:15''))
     = Inr ([Some (PDatetimeUTC 1674723435)], [])
   \<and> utc_seconds (NaiveDatetime 2023 1 26 9 57 15) = 1674727035
   \<and> PDatetimeUTC 1674723435 \<noteq> PDatetimeUTC (utc_seconds (NaiveDatetime 2023 1 26 9 57 15))"
  by code_simp

text \<open>
  C2, amended: when the dump of one record gives a node and the record holds the
  line \<open>SlurmdStartTime=2023-01-26T09:57:15\<close> (its last line with that key), the
  \<open>slurmdstarttime\<close> of the node is the UTC-aware time stamp of the instant at
  which the local clock of the system shows 2023-01-26T09:57:15: the UTC reading of
  these fields minus the local offset from UTC. It is 2023-01-26T09:57:15+00:00 when
  that offset is zero. With \<open>SlurmdStartTime=None\<close> or \<open>SlurmdStartTime=Unknown\<close>
  the field is \<open>None\<close>.
\<close>

theorem start_time_is_local_time_in_utc:
  assumes "str_split s (''######'' @ [CHR 0x0A]) = [r, []]"
    and "parse_nodes_info pn tz s = Inr ([node], ws)"
    and "splitlines r = pre @ l # post"
    and "\<forall>x \<in> set post. hd (str_split x ''='') \<noteq> ''SlurmdStartTime''"
  shows "(l = ''SlurmdStartTime=2023-01-26T09:57:15'' \<longrightarrow>
            node_kwargs node ''slurmdstarttime'' =
              Some (PDatetimeUTC (utc_seconds (NaiveDatetime 2023 1 26 9 57 15)
                                  - tz (NaiveDatetime 2023 1 26 9 57 15)))
            \<and> (tz (NaiveDatetime 2023 1 26 9 57 15) = 0 \<longrightarrow>
                 node_kwargs node ''slurmdstarttime'' =
                   Some (PDatetimeUTC (utc_seconds (NaiveDatetime 2023 1 26 9 57 15)))))
         \<and> (l = ''SlurmdStartTime=None'' \<or> l = ''SlurmdStartTime=Unknown'' \<longrightarrow>
              node_kwargs node ''slurmdstarttime'' = Some PNone)"
proof -
  have "parse_nodes_info pn tz s = parse_records pn tz ([r] @ [[]]) ([], [])"
    using assms(1) by (simp add: parse_nodes_info_def)
  with assms(2) have "parse_records pn tz [r] ([], []) = Inr ([node], ws)"
    unfolding parse_records_append
    by (auto simp: parse_records_empty_record split: sum.splits simp del: parse_records.simps)
  from parse_record_node[OF this] assms(3)
  have "parse_lines tz Map.empty (pre @ l # post) = Inr (node_kwargs node)" by simp
  then obtain k0 k1 where l: "parse_line tz k0 l = Inr k1"
    and post: "parse_lines tz k1 post = Inr (node_kwargs node)"
    by (auto simp: parse_lines_append split: sum.splits)
  from parse_lines_other_keys[OF post assms(4)]
  have "node_kwargs node ''slurmdstarttime'' = k1 ''slurmdstarttime''" .
  with l show ?thesis
    by (auto simp: parse_line_start_time_absent dest: parse_line_start_time)
qed

theorem start_time_is_local_time_in_utc_witness:
  "str_split (sample_dump ''queue1-st-c5xlarge-3'' ''2023-01-26T09:57:15'') (''######'' @ [CHR 0x0A])
     = [sample_record ''queue1-st-c5xlarge-3'' ''2023-01-26T09:57:15'', []]
   \<and> splitlines (sample_record ''queue1-st-c5xlarge-3'' ''2023-01-26T09:57:15'') =
     [''NodeName=queue1-st-c5xlarge-3'', ''NodeAddr=1.2.3.4'',
      ''NodeHostName=queue1-st-c5xlarge-3'', ''State=IDLE+CLOUD+POWER'',
      ''Partitions=compute,compute2'']
     @ ''SlurmdStartTime=2023-01-26T09:57:15'' # [''Reason=some reason'']
   \<and> (\<exists>node. parse_nodes_info parse_nodename (\<lambda>n. 0)
                 (sample_dump ''queue1-st-c5xlarge-3'' ''2023-01-26T09:57:15'')
               = Inr ([node], [])
              \<and> node_kwargs node ''slurmdstarttime'' = Some (PDatetimeUTC 1674727035))
   \<and> (\<exists>node. parse_nodes_info parse_nodename (\<lambda>n. 0)
                 (sample_dump ''queue1-st-c5xlarge-3'' ''None'')
               = Inr ([node], [])
              \<and> node_kwargs node ''slurmdstarttime'' = Some PNone)"
proof -
  let ?r = "sample_record ''queue1-st-c5xlarge-3'' ''2023-01-26T09:57:15''"
  let ?r' = "sample_record ''queue1-st-c5xlarge-3'' ''None''"
  let ?s = "sample_dump ''queue1-st-c5xlarge-3'' ''2023-01-26T09:57:15''"
  let ?s' = "sample_dump ''queue1-st-c5xlarge-3'' ''None''"
  let ?pre = "[''NodeName=queue1-st-c5xlarge-3'', ''NodeAddr=1.2.3.4'',
      ''NodeHostName=queue1-st-c5xlarge-3'', ''State=IDLE+CLOUD+POWER'',
      ''Partitions=compute,compute2'']"
  have d: "str_split ?s (''######'' @ [CHR 0x0A]) = [?r, []]" by code_simp
  have d': "str_split ?s' (''######'' @ [CHR 0x0A]) = [?r', []]" by code_simp
  have l: "splitlines ?r = ?pre @ ''SlurmdStartTime=2023-01-26T09:57:15'' # [''Reason=some reason'']"
    by code_simp
  have l': "splitlines ?r' = ?pre @ ''SlurmdStartTime=None'' # [''Reason=some reason'']"
    by code_simp
  have "map_sum id (\<lambda>(nodes, warnings). (map (\<lambda>node. ()) nodes, warnings))
          (parse_nodes_info parse_nodename (\<lambda>n. 0) ?s) = Inr ([()], [])"
    by code_simp
  then obtain node where n: "parse_nodes_info parse_nodename (\<lambda>n. 0) ?s = Inr ([node], [])"
    by (rule view_obtain)
  have "map_sum id (\<lambda>(nodes, warnings). (map (\<lambda>node. ()) nodes, warnings))
          (parse_nodes_info parse_nodename (\<lambda>n. 0) ?s') = Inr ([()], [])"
    by code_simp
  then obtain node' where n': "parse_nodes_info parse_nodename (\<lambda>n. 0) ?s' = Inr ([node'], [])"
    by (rule view_obtain)
  have e: "\<forall>x \<in> set [''Reason=some reason'']. hd (str_split x ''='') \<noteq> ''SlurmdStartTime''"
    by code_simp
  from start_time_is_local_time_in_utc[OF d n l e, unfolded utc_seconds_example]
  have 1: "node_kwargs node ''slurmdstarttime'' = Some (PDatetimeUTC 1674727035)"
    by simp
  from start_time_is_local_time_in_utc[OF d' n' l' e]
  have 2: "node_kwargs node' ''slurmdstarttime'' = Some PNone"
    by simp
  from d l n n' 1 2 show ?thesis by blast
qed

lemma strptime_error: "strptime s = Inl e \<Longrightarrow> e = ValueError"
  by (auto simp: strptime_def split: option.splits)

lemma astimezone_utc_error: "astimezone_utc tz n = Inl e \<Longrightarrow> e = OverflowError"
  by (auto simp: astimezone_utc_def Let_def split: if_splits)

lemma parse_line_error:
  "parse_line tz k l = Inl e \<Longrightarrow> e = ValueError \<or> e = KeyError \<or> e = OverflowError"
  unfolding parse_line_def
  by (auto split: list.splits sum.splits option.splits if_splits
      dest: strptime_error astimezone_utc_error simp: map_sum_def)

lemma parse_lines_error:
  "parse_lines tz k ls = Inl e \<Longrightarrow> e = ValueError \<or> e = KeyError \<or> e = OverflowError"
  by (induction ls arbitrary: k) (auto split: sum.splits dest: parse_line_error)

lemma add_node_error: "add_node pn ls k acc = Inl e \<Longrightarrow> e \<noteq> InvalidNodenameError"
  by (auto simp: add_node_def split: prod.splits if_splits option.splits pyval.splits sum.splits)

lemma parse_records_error:
  "parse_records pn tz rs acc = Inl e \<Longrightarrow> e \<noteq> InvalidNodenameError"
  by (induction rs arbitrary: acc)
     (auto split: sum.splits dest: parse_lines_error add_node_error)

lemma parse_records_around:
  assumes "parse_records pn tz before ([], []) = Inr (nodes, warnings)"
    and "parse_records pn tz after ([], []) = Inr (nodes', warnings')"
    and "parse_lines tz Map.empty (splitlines r) = Inr kwargs"
  shows "parse_records pn tz (before @ r # after) ([], []) =
           (case add_node pn (splitlines r) kwargs ([], []) of
              Inl e \<Rightarrow> Inl e
            | Inr (n1, w1) \<Rightarrow> Inr (nodes @ n1 @ nodes', warnings @ w1 @ warnings'))"
proof -
  have 1: "parse_records pn tz (before @ r # after) ([], []) =
          parse_records pn tz (r # after) (nodes, warnings)"
    using assms(1) by (simp add: parse_records_append del: parse_records.simps)
  have 2: "parse_records pn tz (r # after) (nodes, warnings) =
             (case add_node pn (splitlines r) kwargs (nodes, warnings) of
                Inl e \<Rightarrow> Inl e
              | Inr acc' \<Rightarrow> parse_records pn tz after acc')"
    using assms(3) by simp
  show ?thesis
  proof (cases "add_node pn (splitlines r) kwargs ([], [])")
    case (Inl e)
    then have "add_node pn (splitlines r) kwargs (nodes, warnings) = Inl e"
      by (subst add_node_acc) simp
    with 1 2 Inl show ?thesis by simp
  next
    case (Inr acc1)
    obtain n1 w1 where acc1: "acc1 = (n1, w1)" by (cases acc1)
    with Inr have a: "add_node pn (splitlines r) kwargs (nodes, warnings)
                        = Inr (nodes @ n1, warnings @ w1)"
      by (subst add_node_acc) simp
    have "parse_records pn tz after (nodes @ n1, warnings @ w1)
            = Inr ((nodes @ n1) @ nodes', (warnings @ w1) @ warnings')"
      using assms(2) by (subst parse_records_acc) simp
    with 1 2 a Inr acc1 show ?thesis by simp
  qed
qed

text \<open>
  C9: take a dump, one of its records whose lines parse and give a name, and what
  the records before and after it give; \<open>parse_nodename\<close> is any function. When
  the name parses with node type \<open>st\<close> and the record has the fields a node needs,
  \<open>_parse_nodes_info\<close> returns the nodes of the records before, a static node made
  of the record, and the nodes of the records after. When the name parses with node
  type \<open>dy\<close> (or any type other than \<open>st\<close>) the node is a dynamic node. When the
  name raises \<open>InvalidNodenameError\<close> the record gives no node: the returned list
  holds the nodes of the other records only, the name is logged in a warning, and
  no error reaches the caller. A record with a name that parses and without a field
  a node needs raises \<open>TypeError\<close>. \<open>_parse_nodes_info\<close> never raises
  \<open>InvalidNodenameError\<close>, whatever the dump. With the grammar of the spec,
  \<open>queue1-st-c5xlarge-3\<close> is static and \<open>queue1-dy-c5xlarge-3\<close> is dynamic.
\<close>

theorem node_kind_follows_name:
  assumes "str_split s (''######'' @ [CHR 0x0A]) = before @ r # after"
    and "parse_records pn tz before ([], []) = Inr (nodes, warnings)"
    and "parse_records pn tz after ([], []) = Inr (nodes', warnings')"
    and "parse_lines tz Map.empty (splitlines r) = Inr kwargs"
    and "splitlines r \<noteq> []"
    and "kwargs ''name'' = Some (PStr nodename)"
  shows "(\<forall>q c. pn nodename = Inr (q, ''st'', c) \<and> list_all (\<lambda>a. kwargs a \<noteq> None) required_args \<longrightarrow>
            is_static_node pn nodename = Inr True
            \<and> parse_nodes_info pn tz s
                = Inr (nodes @ StaticNode kwargs # nodes', warnings @ warnings'))
         \<and> (\<forall>q t c. pn nodename = Inr (q, t, c) \<and> (t = ''dy'' \<or> t \<noteq> ''st'')
                   \<and> list_all (\<lambda>a. kwargs a \<noteq> None) required_args \<longrightarrow>
            is_static_node pn nodename = Inr False
            \<and> parse_nodes_info pn tz s
                = Inr (nodes @ DynamicNode kwargs # nodes', warnings @ warnings'))
         \<and> (pn nodename = Inl InvalidNodenameError \<longrightarrow>
            is_static_node pn nodename = Inl InvalidNodenameError
            \<and> parse_nodes_info pn tz s
                = Inr (nodes @ nodes', warnings @ nodename # warnings'))
         \<and> (\<forall>q t c. pn nodename = Inr (q, t, c)
                   \<and> \<not> list_all (\<lambda>a. kwargs a \<noteq> None) required_args \<longrightarrow>
            parse_nodes_info pn tz s = Inl TypeError)
         \<and> parse_nodes_info pn tz s' \<noteq> Inl InvalidNodenameError"
proof -
  have never: "parse_nodes_info pn tz s' \<noteq> Inl InvalidNodenameError"
    using parse_records_error[of pn tz _ _ InvalidNodenameError]
    by (auto simp: parse_nodes_info_def)
  have whole: "parse_nodes_info pn tz s =
           (case add_node pn (splitlines r) kwargs ([], []) of
              Inl e \<Rightarrow> Inl e
            | Inr (n1, w1) \<Rightarrow> Inr (nodes @ n1 @ nodes', warnings @ w1 @ warnings'))"
    using parse_records_around[OF assms(2,3,4)] assms(1) by (simp add: parse_nodes_info_def)
  show ?thesis
    unfolding whole using never assms(5,6)
    by (auto simp: add_node_def build_node_def construct_node_def is_static_node_def)
qed

lemma parse_nodename_examples:
  "parse_nodename ''queue1-st-c5xlarge-3'' = Inr (''queue1'', ''st'', ''c5xlarge'')"
  "parse_nodename ''queue1-dy-c5xlarge-3'' = Inr (''queue1'', ''dy'', ''c5xlarge'')"
  "parse_nodename ''queue1-c5xlarge'' = Inl InvalidNodenameError"
  by code_simp+

lemma name_obtain:
  assumes "map_sum id (\<lambda>k. k ''name'') res = Inr v"
  obtains k :: "string \<rightharpoonup> pyval" where "res = Inr k" and "k ''name'' = v"
  using assms by (cases res) auto

lemma parse_records_drop_empty:
  "parse_records pn tz (rs @ [[]]) acc = parse_records pn tz rs acc"
  by (simp add: parse_records_append parse_records_empty_record split: sum.splits
      del: parse_records.simps)

theorem node_kind_follows_name_witness:
  "parse_nodename ''queue1-st-c5xlarge-3'' = Inr (''queue1'', ''st'', ''c5xlarge'')
   \<and> parse_nodename ''queue1-dy-c5xlarge-3'' = Inr (''queue1'', ''dy'', ''c5xlarge'')
   \<and> parse_nodename ''queue1-c5xlarge'' = Inl InvalidNodenameError
   \<and> (\<exists>k. parse_nodes_info parse_nodename (\<lambda>n. 0)
              (sample_dump ''queue1-st-c5xlarge-3'' ''None'')
            = Inr ([StaticNode k], [])
           \<and> k ''name'' = Some (PStr ''queue1-st-c5xlarge-3''))
   \<and> (\<exists>k. parse_nodes_info parse_nodename (\<lambda>n. 0)
              (sample_dump ''queue1-dy-c5xlarge-3'' ''None'')
            = Inr ([DynamicNode k], [])
           \<and> k ''name'' = Some (PStr ''queue1-dy-c5xlarge-3''))
   \<and> (\<exists>k k'. parse_nodes_info parse_nodename (\<lambda>n. 0)
              (sample_dump ''queue1-st-c5xlarge-3'' ''None''
               @ sample_dump ''queue1-c5xlarge'' ''None''
               @ sample_dump ''queue1-dy-c5xlarge-3'' ''None'')
            = Inr ([StaticNode k, DynamicNode k'], [''queue1-c5xlarge''])
           \<and> k ''name'' = Some (PStr ''queue1-st-c5xlarge-3'')
           \<and> k' ''name'' = Some (PStr ''queue1-dy-c5xlarge-3''))"
proof -
  let ?sep = "''######'' @ [CHR 0x0A]"
  let ?st = "sample_record ''queue1-st-c5xlarge-3'' ''None''"
  let ?dy = "sample_record ''queue1-dy-c5xlarge-3'' ''None''"
  let ?bad = "sample_record ''queue1-c5xlarge'' ''None''"
  have ne: "splitlines ?st \<noteq> []" "splitlines ?dy \<noteq> []" "splitlines ?bad \<noteq> []"
    by code_simp+
  have d1: "str_split (sample_dump ''queue1-st-c5xlarge-3'' ''None'') ?sep = [] @ ?st # [[]]"
    by code_simp
  have d2: "str_split (sample_dump ''queue1-dy-c5xlarge-3'' ''None'') ?sep = [] @ ?dy # [[]]"
    by code_simp
  have d3: "str_split (sample_dump ''queue1-st-c5xlarge-3'' ''None''
               @ sample_dump ''queue1-c5xlarge'' ''None''
               @ sample_dump ''queue1-dy-c5xlarge-3'' ''None'') ?sep = [?st] @ ?bad # [?dy, []]"
    by code_simp
  have "map_sum id (\<lambda>k. k ''name'') (parse_lines (\<lambda>n. 0) Map.empty (splitlines ?st))
          = Inr (Some (PStr ''queue1-st-c5xlarge-3''))"
    by code_simp
  then obtain k1 where k1: "parse_lines (\<lambda>n. 0) Map.empty (splitlines ?st) = Inr k1"
    "k1 ''name'' = Some (PStr ''queue1-st-c5xlarge-3'')"
    by (rule name_obtain)
  have "map_sum id (\<lambda>k. list_all (\<lambda>a. k a \<noteq> None) required_args)
          (parse_lines (\<lambda>n. 0) Map.empty (splitlines ?st)) = Inr True"
    by code_simp
  with k1(1) have r1: "list_all (\<lambda>a. k1 a \<noteq> None) required_args" by simp
  have "map_sum id (\<lambda>k. k ''name'') (parse_lines (\<lambda>n. 0) Map.empty (splitlines ?dy))
          = Inr (Some (PStr ''queue1-dy-c5xlarge-3''))"
    by code_simp
  then obtain k2 where k2: "parse_lines (\<lambda>n. 0) Map.empty (splitlines ?dy) = Inr k2"
    "k2 ''name'' = Some (PStr ''queue1-dy-c5xlarge-3'')"
    by (rule name_obtain)
  have "map_sum id (\<lambda>k. list_all (\<lambda>a. k a \<noteq> None) required_args)
          (parse_lines (\<lambda>n. 0) Map.empty (splitlines ?dy)) = Inr True"
    by code_simp
  with k2(1) have r2: "list_all (\<lambda>a. k2 a \<noteq> None) required_args" by simp
  have "map_sum id (\<lambda>k. k ''name'') (parse_lines (\<lambda>n. 0) Map.empty (splitlines ?bad))
          = Inr (Some (PStr ''queue1-c5xlarge''))"
    by code_simp
  then obtain k3 where k3: "parse_lines (\<lambda>n. 0) Map.empty (splitlines ?bad) = Inr k3"
    "k3 ''name'' = Some (PStr ''queue1-c5xlarge'')"
    by (rule name_obtain)
  have e: "parse_records parse_nodename (\<lambda>n. 0) [] ([], []) = Inr ([], [])"
    "parse_records parse_nodename (\<lambda>n. 0) [[]] ([], []) = Inr ([], [])"
    by (simp_all add: splitlines_Nil add_node_def)
  from node_kind_follows_name[OF d1 e(1) e(2) k1(1) ne(1) k1(2)] parse_nodename_examples(1) r1
  have 1: "parse_nodes_info parse_nodename (\<lambda>n. 0) (sample_dump ''queue1-st-c5xlarge-3'' ''None'')
             = Inr ([StaticNode k1], [])"
    by simp
  from node_kind_follows_name[OF d2 e(1) e(2) k2(1) ne(2) k2(2)] parse_nodename_examples(2) r2
  have 2: "parse_nodes_info parse_nodename (\<lambda>n. 0) (sample_dump ''queue1-dy-c5xlarge-3'' ''None'')
             = Inr ([DynamicNode k2], [])"
    by simp
  have b: "parse_records parse_nodename (\<lambda>n. 0) [?st] ([], []) = Inr ([StaticNode k1], [])"
    using 1 d1 parse_records_drop_empty[of parse_nodename "\<lambda>n. 0" "[?st]" "([], [])"]
    by (simp add: parse_nodes_info_def del: parse_records.simps)
  have a: "parse_records parse_nodename (\<lambda>n. 0) [?dy, []] ([], []) = Inr ([DynamicNode k2], [])"
    using 2 d2 by (simp add: parse_nodes_info_def del: parse_records.simps)
  from node_kind_follows_name[OF d3 b a k3(1) ne(3) k3(2)] parse_nodename_examples(3)
  have 3: "parse_nodes_info parse_nodename (\<lambda>n. 0)
              (sample_dump ''queue1-st-c5xlarge-3'' ''None''
               @ sample_dump ''queue1-c5xlarge'' ''None''
               @ sample_dump ''queue1-dy-c5xlarge-3'' ''None'')
            = Inr ([StaticNode k1, DynamicNode k2], [''queue1-c5xlarge''])"
    by simp
  from 1 2 3 k1(2) k2(2) parse_nodename_examples show ?thesis by blast
qed

end
